theory Spec2Isabelle
  imports Complex_Main "HOL-Library.Char_ord" "HOL-Library.List_Lexorder"
    "HOL-Library.Product_Lexorder" "HOL-Library.Multiset"
begin
section \<open>Data model\<close>

text \<open>
  A pandas \<open>Timestamp\<close> by its calendar fields. Timestamps compare field by field
  from the year down, which is the chronological order.
\<close>

record timestamp =
  year :: nat
  month :: nat
  day :: nat
  hour :: nat
  minute :: nat
  second :: nat
  microsecond :: nat

definition ts_tuple :: "timestamp \<Rightarrow> nat \<times> nat \<times> nat \<times> nat \<times> nat \<times> nat \<times> nat" where
  "ts_tuple t = (year t, month t, day t, hour t, minute t, second t, microsecond t)"

definition later :: "timestamp \<Rightarrow> timestamp \<Rightarrow> timestamp" where
  "later b a = (if ts_tuple a \<le> ts_tuple b then b else a)"

fun digits :: "nat \<Rightarrow> string" where
  "digits n = (if n < 10 then [''0123456789'' ! n] else digits (n div 10) @ [''0123456789'' ! (n mod 10)])"

definition zfill :: "nat \<Rightarrow> string \<Rightarrow> string" where
  "zfill w s = replicate (w - length s) (CHR ''0'') @ s"

text \<open>\<open>strftime('%Y-%m-%dT%H:%M:%S.%f')\<close>.\<close>

definition strftime :: "timestamp \<Rightarrow> string" where
  "strftime t =
     zfill 4 (digits (year t)) @ ''-'' @ zfill 2 (digits (month t)) @ ''-'' @ zfill 2 (digits (day t))
     @ ''T'' @ zfill 2 (digits (hour t)) @ '':'' @ zfill 2 (digits (minute t)) @ '':''
     @ zfill 2 (digits (second t)) @ ''.'' @ zfill 6 (digits (microsecond t))"

text \<open>
  A cell of a DataFrame, or a value of a JSON record returned by the API: a string, a
  number, or a datetime value (a pandas \<open>Timestamp\<close> or a \<open>datetime\<close> object, which
  only \<open>pd.to_datetime\<close> puts into a frame). \<open>Null\<close> stands for every missing marker
  of the Python side (\<open>None\<close>, \<open>NaN\<close>, \<open>pd.NA\<close>, \<open>NaT\<close>): \<open>isnull()\<close> is
  true exactly on it, and psycopg2 writes it as SQL NULL.
\<close>

datatype cell = Null | Str string | Num real | Ts timestamp

text \<open>A raw record is a JSON object: field names with their values, in the order returned.\<close>

type_synonym raw_record = "(string \<times> cell) list"

text \<open>
  A DataFrame: the column labels and the rows in index order, each row holding one cell
  per column. \<open>df.empty\<close> is true when either axis has length 0.
\<close>

record frame =
  columns :: "string list"
  rows :: "cell list list"

definition empty_frame :: frame where
  "empty_frame = \<lparr>columns = [], rows = []\<rparr>"

definition is_empty :: "frame \<Rightarrow> bool" where
  "is_empty df = (columns df = [] \<or> rows df = [])"

definition wf_frame :: "frame \<Rightarrow> bool" where
  "wf_frame df = (distinct (columns df) \<and> list_all (\<lambda>r. length r = length (columns df)) (rows df))"

text \<open>Python exceptions that the ETL code raises or catches.\<close>

datatype pyerr =
    ValueError
  | TypeError
  | AttributeError
  | RequestException
  | SQLAlchemyError
  | DatabaseError

text \<open>One HTTP GET of the extractor: the query parameters \<open>$offset\<close>, \<open>$limit\<close>, \<open>$where\<close>.\<close>

record request =
  offset :: int
  limit :: int
  where_clause :: "string option"

text \<open>
  The remote dataset: what one GET returns after \<open>raise_for_status()\<close> and
  \<open>response.json()\<close>, either an exception or the page of records.
\<close>

type_synonym api = "request \<Rightarrow> pyerr + raw_record list"

text \<open>
  What a run does that can be observed from outside, in the order it happens: the HTTP
  requests, the calls of the loader, the database transaction ends, the writes of the
  watermark file, and the log records of level WARNING and above.
\<close>

datatype event =
    HttpGet request
  | Warn_no_app_token
  | Error_invalid_last_run_timestamp string
  | Warn_max_iterations
  | Error_fetching
  | Warn_duplicate_column string string
  | Warn_could_not_convert string
  | Warn_expected_column_missing string
  | Warn_could_not_parse_datetime string
  | Warn_datetime_column_missing string
  | Warn_dq_missing_pk nat
  | Error_dq_pk_column_missing
  | Warn_dq_duplicates nat
  | Warn_dq_issues
  | Error_reading_watermark
  | Error_writing_watermark
  | Wrote_watermark string
  | Error_inspect_columns
  | Warn_columns_dropped "string list"
  | Db_commit
  | Db_rollback
  | Error_upsert
  | Warn_cannot_infer_schema
  | Error_create_table
  | Call_load_data_to_staging
  | Error_unique_key_missing
  | Error_load
  | Error_extraction_failed
  | Warn_no_latest_timestamp
  | Warn_incremental_column_missing
  | Error_transformation_failed
  | Warn_watermark_not_updated
  | Critical_etl_failed

text \<open>The settings of \<open>AppConfig\<close> that the ETL engine reads.\<close>

record config =
  BATCH_SIZE :: int
  API_APP_TOKEN :: "string option"
  STAGING_TABLE_NAME :: string

definition INCREMENTAL_COLUMN :: string where
  "INCREMENTAL_COLUMN = ''response_timestamp''"


text \<open>
  The library functions of Python and pandas that the code calls and that are not
  modelled further, taken as they behave on a column:
  \<^item> \<open>to_numeric\<close>: \<open>pd.to_numeric(series, errors='coerce')\<close>;
  \<^item> \<open>astype_string\<close>: \<open>series.astype(pd.StringDtype())\<close>;
  \<^item> \<open>to_datetime\<close>: \<open>pd.to_datetime(series, errors='coerce')\<close>, which
    returns a column of dtype datetime64 whose unparseable entries are NaT (here
    \<open>None\<close>), or, where it builds no such column (dates with different UTC offsets,
    before pandas 3), a column of dtype object holding the values it made;
  \<^item> \<open>fromisoformat\<close>: whether \<open>datetime.fromisoformat\<close> accepts the string
    (it raises ValueError otherwise).
  Each column function may raise, which the code catches.
\<close>

datatype dtcolumn = Datetime64 "timestamp option list" | Objects "cell list"

record pylib =
  to_numeric :: "cell list \<Rightarrow> pyerr + cell list"
  astype_string :: "cell list \<Rightarrow> pyerr + cell list"
  to_datetime :: "cell list \<Rightarrow> pyerr + dtcolumn"
  fromisoformat :: "string \<Rightarrow> bool"

section \<open>Frames: column access, assignment, sorting, duplicates\<close>

fun index_of :: "'a \<Rightarrow> 'a list \<Rightarrow> nat" where
  "index_of x [] = 0"
| "index_of x (y # ys) = (if x = y then 0 else Suc (index_of x ys))"

definition cell_at :: "cell list \<Rightarrow> nat \<Rightarrow> cell" where
  "cell_at r i = (if i < length r then r ! i else Null)"

text \<open>\<open>df[col]\<close> for a label that is among the columns.\<close>

definition column :: "frame \<Rightarrow> string \<Rightarrow> cell list" where
  "column df c = map (\<lambda>r. cell_at r (index_of c (columns df))) (rows df)"

text \<open>
  \<open>df[col] = values\<close> for a label that is among the columns: pandas raises ValueError
  when the length of the values is not the length of the index.
\<close>

definition set_column :: "string \<Rightarrow> cell list \<Rightarrow> frame \<Rightarrow> pyerr + frame" where
  "set_column c vs df =
     (if length vs \<noteq> length (rows df) then Inl ValueError
      else Inr (df\<lparr>rows := map (\<lambda>(r, v). r[index_of c (columns df) := v]) (zip (rows df) vs)\<rparr>))"

text \<open>
  The order \<open>sort_values\<close> uses on a column of Python objects: strings by code point,
  numbers by value, datetime values by time, missing values last
  (\<open>na_position='last'\<close>). Comparing values of two of these kinds raises TypeError, so
  the rank between the kinds never decides a sort.
\<close>

fun cell_key :: "cell \<Rightarrow> nat \<times> string \<times> real \<times> (nat \<times> nat \<times> nat \<times> nat \<times> nat \<times> nat \<times> nat)" where
  "cell_key (Str s) = (0, s, 0, (0, 0, 0, 0, 0, 0, 0))"
| "cell_key (Num x) = (1, [], x, (0, 0, 0, 0, 0, 0, 0))"
| "cell_key (Ts t) = (2, [], 0, ts_tuple t)"
| "cell_key Null = (3, [], 0, (0, 0, 0, 0, 0, 0, 0))"

fun is_str :: "cell \<Rightarrow> bool" where
  "is_str (Str s) = True"
| "is_str c = False"

fun is_num :: "cell \<Rightarrow> bool" where
  "is_num (Num x) = True"
| "is_num c = False"

fun is_ts :: "cell \<Rightarrow> bool" where
  "is_ts (Ts t) = True"
| "is_ts c = False"

text \<open>A column that holds values of two of the kinds cannot be sorted.\<close>

definition mixed_types :: "cell list \<Rightarrow> bool" where
  "mixed_types cs =
     ((list_ex is_str cs \<and> list_ex is_num cs) \<or> (list_ex is_str cs \<and> list_ex is_ts cs)
      \<or> (list_ex is_num cs \<and> list_ex is_ts cs))"

definition sort_values :: "string \<Rightarrow> frame \<Rightarrow> pyerr + frame" where
  "sort_values c df =
     (if mixed_types (column df c) then Inl TypeError
      else Inr (df\<lparr>rows := sort_key (\<lambda>r. cell_key (cell_at r (index_of c (columns df)))) (rows df)\<rparr>))"

text \<open>\<open>drop_duplicates(keep='last')\<close>: a row stays when no later row has its key.\<close>

fun keep_last :: "('a \<Rightarrow> 'k) \<Rightarrow> 'a list \<Rightarrow> 'a list" where
  "keep_last key [] = []"
| "keep_last key (x # xs) =
     (if key x \<in> key ` set xs then keep_last key xs else x # keep_last key xs)"

text \<open>\<open>drop_duplicates(keep='first')\<close>: a row stays when no earlier row has its key.\<close>

fun keep_first :: "('a \<Rightarrow> 'k) \<Rightarrow> 'k list \<Rightarrow> 'a list \<Rightarrow> 'a list" where
  "keep_first key seen [] = []"
| "keep_first key seen (x # xs) =
     (if key x \<in> set seen then keep_first key seen xs
      else x # keep_first key (key x # seen) xs)"

definition drop_duplicates :: "string \<Rightarrow> bool \<Rightarrow> frame \<Rightarrow> frame" where
  "drop_duplicates c keep_last_row df =
     (let key = (\<lambda>r. cell_at r (index_of c (columns df)))
      in df\<lparr>rows := (if keep_last_row then keep_last key (rows df) else keep_first key [] (rows df))\<rparr>)"


section \<open>Paginated extractor (etl/extract.py)\<close>

text \<open>The page cap is a local constant of \<open>fetch_fire_data\<close>.\<close>

definition max_iterations :: nat where
  "max_iterations = 10"

text \<open>Python truthiness of an optional string: \<open>None\<close> and \<open>''\<close> are false.\<close>

fun truthy :: "string option \<Rightarrow> bool" where
  "truthy None = False"
| "truthy (Some s) = (s \<noteq> [])"

text \<open>
  The \<open>while True\<close> loop of \<open>fetch_fire_data\<close>. Its state is the offset, the
  iteration count, the records fetched so far and the events so far. An exception of
  the request returns \<open>None\<close>.
\<close>

function fetch_loop ::
  "api \<Rightarrow> int \<Rightarrow> string option \<Rightarrow> int \<Rightarrow> nat \<Rightarrow> raw_record list \<Rightarrow> event list
   \<Rightarrow> raw_record list option \<times> event list" where
  "fetch_loop srv lmt wh ofs iteration_count all_data evs =
     (let req = \<lparr>offset = ofs, limit = lmt, where_clause = wh\<rparr>;
          evs1 = evs @ [HttpGet req]
      in case srv req of
           Inl e \<Rightarrow> (None, evs1 @ [Error_fetching])
         | Inr data_batch \<Rightarrow>
             if data_batch = [] then (Some all_data, evs1)
             else if int (length data_batch) < lmt then (Some (all_data @ data_batch), evs1)
             else if max_iterations \<le> iteration_count + 1
               then (Some (all_data @ data_batch), evs1 @ [Warn_max_iterations])
             else fetch_loop srv lmt wh (ofs + lmt) (iteration_count + 1)
                    (all_data @ data_batch) evs1)"
  by pat_completeness auto
termination
  by (relation "measure (\<lambda>(srv, lmt, wh, ofs, n, all_data, evs). max_iterations - n)") auto

text \<open>
  \<open>pd.DataFrame(all_data)\<close> on a list of dicts: the columns are the keys in the order
  they are first seen, and a record without a key gets a missing value there.
\<close>

fun first_seen :: "'a list \<Rightarrow> 'a list \<Rightarrow> 'a list" where
  "first_seen acc [] = acc"
| "first_seen acc (x # xs) = (if x \<in> set acc then first_seen acc xs else first_seen (acc @ [x]) xs)"

definition record_row :: "string list \<Rightarrow> raw_record \<Rightarrow> cell list" where
  "record_row cols r = map (\<lambda>c. case map_of r c of None \<Rightarrow> Null | Some v \<Rightarrow> v) cols"

definition DataFrame :: "raw_record list \<Rightarrow> frame" where
  "DataFrame recs =
     (let cols = first_seen [] (concat (map (map fst) recs))
      in \<lparr>columns = cols, rows = map (record_row cols) recs\<rparr>)"

definition where_filter :: "string \<Rightarrow> string" where
  "where_filter ts = INCREMENTAL_COLUMN @ '' > '' @ [CHR 0x27] @ ts @ [CHR 0x27]"

text \<open>
  \<open>fetch_fire_data\<close>. The result \<open>None\<close> is the failure value, \<open>Some\<close> a
  DataFrame (the empty one when nothing was fetched). A watermark that is present and
  refused by \<open>fromisoformat\<close> returns \<open>None\<close> before the loop.
\<close>

definition fetch_fire_data ::
  "config \<Rightarrow> pylib \<Rightarrow> api \<Rightarrow> string option \<Rightarrow> frame option \<times> event list" where
  "fetch_fire_data cfg py srv last_run_timestamp =
     (let evs0 = (if truthy (API_APP_TOKEN cfg) then [] else [Warn_no_app_token]);
          paginate = (\<lambda>wh. case fetch_loop srv (BATCH_SIZE cfg) wh 0 0 [] evs0 of
                (None, evs) \<Rightarrow> (None, evs)
              | (Some all_data, evs) \<Rightarrow>
                  if all_data = [] then (Some empty_frame, evs)
                  else (Some (DataFrame all_data), evs))
      in case last_run_timestamp of
           None \<Rightarrow> paginate None
         | Some ts \<Rightarrow>
             if ts = [] then paginate None
             else if fromisoformat py ts then paginate (Some (where_filter ts))
             else (None, evs0 @ [Error_invalid_last_run_timestamp ts]))"

section \<open>Schema normalizer and quality gate (etl/transform.py)\<close>

datatype dtype = DString | DInt64 | DFloat64

definition EXPECTED_DTYPES :: "(string \<times> dtype) list" where
  "EXPECTED_DTYPES =
     [(''incident_number'', DString),
      (''exposure_number'', DInt64),
      (''id'', DString),
      (''address'', DString),
      (''incident_date'', DString),
      (''call_number'', DString),
      (''alarm_dttm'', DString),
      (''arrival_dttm'', DString),
      (''close_dttm'', DString),
      (''city'', DString),
      (''zipcode'', DString),
      (''battalion'', DString),
      (''station_area'', DString),
      (''box'', DString),
      (''suppression_units'', DInt64),
      (''suppression_personnel'', DInt64),
      (''ems_units'', DInt64),
      (''ems_personnel'', DInt64),
      (''other_units'', DInt64),
      (''other_personnel'', DInt64),
      (''first_unit_on_scene'', DString),
      (''estimated_property_loss'', DFloat64),
      (''estimated_contents_loss'', DFloat64),
      (''fire_fatalities'', DInt64),
      (''fire_injuries'', DInt64),
      (''civilian_fatalities'', DInt64),
      (''civilian_injuries'', DInt64),
      (''number_of_alarms'', DInt64),
      (''primary_situation'', DString),
      (''mutual_aid'', DString),
      (''action_taken_primary'', DString),
      (''action_taken_secondary'', DString),
      (''action_taken_other'', DString),
      (''detector_alerted_occupants'', DString),
      (''property_use'', DString),
      (''area_of_fire_origin'', DString),
      (''ignition_cause'', DString),
      (''ignition_factor_primary'', DString),
      (''ignition_factor_secondary'', DString),
      (''heat_source'', DString),
      (''item_first_ignited'', DString),
      (''human_factors_associated_with_ignition'', DString),
      (''structure_type'', DString),
      (''structure_status'', DString),
      (''floor_of_fire_origin'', DInt64),
      (''fire_spread'', DString),
      (''no_flame_spead'', DString),
      (''number_of_floors_with_minimum_damage'', DInt64),
      (''number_of_floors_with_significant_damage'', DInt64),
      (''number_of_floors_with_heavy_damage'', DInt64),
      (''number_of_floors_with_extreme_damage'', DInt64),
      (''detectors_present'', DString),
      (''detector_type'', DString),
      (''detector_operation'', DString),
      (''detector_effectiveness'', DString),
      (''detector_failure_reason'', DString),
      (''automatic_extinguishing_system_present'', DString),
      (''automatic_extinguishing_sytem_type'', DString),
      (''automatic_extinguishing_sytem_perfomance'', DString),
      (''automatic_extinguishing_sytem_failure_reason'', DString),
      (''number_of_sprinkler_heads_operating'', DInt64),
      (''supervisor_district'', DString),
      (''neighborhood_district'', DString),
      (''point'', DString),
      (''data_as_of'', DString),
      (''data_loaded_at'', DString)]"

definition DATETIME_COLUMNS :: "string list" where
  "DATETIME_COLUMNS = [''incident_date'', ''alarm_dttm'', ''arrival_dttm'', ''close_dttm'', ''data_as_of'']"

text \<open>\<open>str.lower()\<close> on the ASCII letters.\<close>

definition lower_char :: "char \<Rightarrow> char" where
  "lower_char c =
     (case map_of (zip ''ABCDEFGHIJKLMNOPQRSTUVWXYZ'' ''abcdefghijklmnopqrstuvwxyz'') c of
        Some d \<Rightarrow> d | None \<Rightarrow> c)"

text \<open>
  \<open>col.lower().replace(' ', '_').replace('-', '_').replace('?', '').replace('.', '')\<close>
\<close>

definition clean_name :: "string \<Rightarrow> string" where
  "clean_name col =
     filter (\<lambda>c. c \<noteq> CHR ''?'' \<and> c \<noteq> CHR ''.'')
       (map (\<lambda>c. if c = CHR '' '' \<or> c = CHR ''-'' then CHR ''_'' else c) (map lower_char col))"

text \<open>
  The loop over the cleaned names with the dict \<open>seen\<close>: a name seen before gets the
  suffix \<open>_n\<close>, \<open>n\<close> counting its repetitions, and a warning.
\<close>

fun dedup_names :: "(string \<rightharpoonup> nat) \<Rightarrow> (string \<times> string) list \<Rightarrow> string list \<times> event list" where
  "dedup_names seen [] = ([], [])"
| "dedup_names seen ((orig, col) # rest) =
     (case seen col of
        Some k \<Rightarrow>
          (let final = col @ ''_'' @ digits (k + 1);
               (fs, evs) = dedup_names (seen(col \<mapsto> k + 1)) rest
           in (final # fs, Warn_duplicate_column orig final # evs))
      | None \<Rightarrow>
          (let (fs, evs) = dedup_names (seen(col \<mapsto> 0)) rest
           in (col # fs, evs)))"

definition clean_column_names :: "frame \<Rightarrow> frame \<times> event list" where
  "clean_column_names df =
     (let (final_columns, evs) = dedup_names Map.empty (map (\<lambda>c. (c, clean_name c)) (columns df))
      in (df\<lparr>columns := final_columns\<rparr>, evs))"

text \<open>
  One round of the first loop of \<open>convert_data_types\<close>: the column, when present, is
  converted and assigned; any exception leaves it as it is, with a warning. The
  branch \<open>astype(dtype)\<close> for other type names is dead: the table has only these three.
\<close>

definition convert_column :: "pylib \<Rightarrow> string \<times> dtype \<Rightarrow> frame \<times> event list \<Rightarrow> frame \<times> event list" where
  "convert_column py cd st =
     (case (cd, st) of ((col, dt), (df, evs)) \<Rightarrow>
        if col \<in> set (columns df) then
          (case (case dt of DString \<Rightarrow> astype_string py | DInt64 \<Rightarrow> to_numeric py
                          | DFloat64 \<Rightarrow> to_numeric py) (column df col) of
             Inl e \<Rightarrow> (df, evs @ [Warn_could_not_convert col])
           | Inr vs \<Rightarrow>
               (case set_column col vs df of
                  Inl e \<Rightarrow> (df, evs @ [Warn_could_not_convert col])
                | Inr df' \<Rightarrow> (df', evs)))
        else (df, evs @ [Warn_expected_column_missing col]))"

text \<open>
  The values of the column \<open>to_datetime\<close> returned, as the cells a frame holds after
  the column is assigned to it.
\<close>

definition cells_of :: "dtcolumn \<Rightarrow> cell list" where
  "cells_of parsed =
     (case parsed of
        Datetime64 ts \<Rightarrow> map (\<lambda>t. case t of None \<Rightarrow> Null | Some ts \<Rightarrow> Ts ts) ts
      | Objects cs \<Rightarrow> cs)"

text \<open>
  \<open>.dt.strftime('%Y-%m-%dT%H:%M:%S.%f').fillna('')\<close>: the accessor \<open>.dt\<close> raises
  AttributeError on a column of dtype object. The formatting of NaT is missing, which
  \<open>fillna('')\<close> turns into the empty string.
\<close>

definition format_datetime :: "timestamp option \<Rightarrow> cell" where
  "format_datetime t = (case t of None \<Rightarrow> Str [] | Some ts \<Rightarrow> Str (strftime ts))"

definition dt_strftime :: "dtcolumn \<Rightarrow> pyerr + cell list" where
  "dt_strftime parsed =
     (case parsed of
        Datetime64 ts \<Rightarrow> Inr (map format_datetime ts)
      | Objects cs \<Rightarrow> Inl AttributeError)"

text \<open>
  One round of the second loop, two assignments in one \<open>try\<close>:
  \<open>df[col] = pd.to_datetime(df[col], errors='coerce')\<close>, then
  \<open>df[col] = df[col].dt.strftime('%Y-%m-%dT%H:%M:%S.%f').fillna('')\<close>. A frame holds
  cells and no dtype, so the second statement reads the dtype from the column that
  the first has just assigned. An exception is caught with a warning and undoes
  nothing: when the second statement raises, the column holds what the first
  assigned.
\<close>

definition parse_datetime_column :: "pylib \<Rightarrow> string \<Rightarrow> frame \<times> event list \<Rightarrow> frame \<times> event list" where
  "parse_datetime_column py col st =
     (case st of (df, evs) \<Rightarrow>
        if col \<in> set (columns df) then
          (case to_datetime py (column df col) of
             Inl e \<Rightarrow> (df, evs @ [Warn_could_not_parse_datetime col])
           | Inr parsed \<Rightarrow>
               (case set_column col (cells_of parsed) df of
                  Inl e \<Rightarrow> (df, evs @ [Warn_could_not_parse_datetime col])
                | Inr df1 \<Rightarrow>
                    (case dt_strftime parsed of
                       Inl e \<Rightarrow> (df1, evs @ [Warn_could_not_parse_datetime col])
                     | Inr formatted \<Rightarrow>
                         (case set_column col formatted df1 of
                            Inl e \<Rightarrow> (df1, evs @ [Warn_could_not_parse_datetime col])
                          | Inr df2 \<Rightarrow> (df2, evs)))))
        else (df, evs @ [Warn_datetime_column_missing col]))"

definition convert_data_types :: "pylib \<Rightarrow> frame \<Rightarrow> frame \<times> event list" where
  "convert_data_types py df =
     fold (parse_datetime_column py) DATETIME_COLUMNS
       (fold (convert_column py) EXPECTED_DTYPES (df, []))"

text \<open>
  \<open>perform_data_quality_checks\<close>. A missing key column raises ValueError. Missing key
  values set the local flag \<open>issues_found\<close>, which only selects the closing log
  record; the rows stay. Duplicate keys are resolved when there are any.
\<close>

definition perform_data_quality_checks :: "frame \<Rightarrow> (pyerr + frame) \<times> event list" where
  "perform_data_quality_checks df =
     (if is_empty df then (Inr df, [])
      else if ''incident_number'' \<notin> set (columns df)
        then (Inl ValueError, [Error_dq_pk_column_missing])
      else
        let keys = column df ''incident_number'';
            missing_pk = length (filter (\<lambda>k. k = Null) keys);
            issues_found = (0 < missing_pk);
            evs1 = (if 0 < missing_pk then [Warn_dq_missing_pk missing_pk] else []);
            duplicates = filter (\<lambda>k. 1 < count_list keys k) keys;
            closing = (if issues_found then [Warn_dq_issues] else [])
        in if duplicates \<noteq> [] then
             (if INCREMENTAL_COLUMN \<in> set (columns df) then
                (case sort_values INCREMENTAL_COLUMN df of
                   Inl e \<Rightarrow> (Inl e, evs1 @ [Warn_dq_duplicates (length duplicates)])
                 | Inr sorted_df \<Rightarrow>
                     (Inr (drop_duplicates ''incident_number'' True sorted_df),
                      evs1 @ [Warn_dq_duplicates (length duplicates)] @ closing))
              else (Inr (drop_duplicates ''incident_number'' False df),
                    evs1 @ [Warn_dq_duplicates (length duplicates)] @ closing))
           else (Inr df, evs1 @ closing))"

text \<open>\<open>transform_data\<close>: no path of it returns \<open>None\<close>.\<close>

definition transform_data :: "pylib \<Rightarrow> frame \<Rightarrow> (pyerr + frame) \<times> event list" where
  "transform_data py df =
     (if is_empty df then (Inr empty_frame, [])
      else
        let (df1, evs1) = clean_column_names df;
            (df2, evs2) = convert_data_types py df1;
            (res, evs3) = perform_data_quality_checks df2
        in (res, evs1 @ evs2 @ evs3))"

section \<open>Warehouse and upsert loader (etl/utils.py, etl/load.py)\<close>

text \<open>
  A table of the warehouse: its columns, the column of its primary key (when it has
  one) and its rows, one cell per column. Cells are kept as the driver received
  them. The database maps table names to tables.
\<close>

record table =
  tcols :: "string list"
  tpk :: "string option"
  trows :: "cell list list"

type_synonym database = "string \<rightharpoonup> table"

text \<open>
  A DBAPI connection: the committed database and the state the open transaction sees.
  \<open>commit\<close> makes the transaction's state the committed one, \<open>rollback\<close> discards it;
  closing the connection leaves the committed database.
\<close>

record connection =
  committed :: database
  working :: database

definition raw_connection :: "database \<Rightarrow> connection" where
  "raw_connection db = \<lparr>committed = db, working = db\<rparr>"

definition commit :: "connection \<Rightarrow> connection" where
  "commit conn = conn\<lparr>committed := working conn\<rparr>"

definition rollback :: "connection \<Rightarrow> connection" where
  "rollback conn = conn\<lparr>working := committed conn\<rparr>"

text \<open>\<open>inspector.get_columns(table_name)\<close>: raises for a table that does not exist.\<close>

definition get_columns :: "database \<Rightarrow> string \<Rightarrow> pyerr + string list" where
  "get_columns db table_name =
     (case db table_name of None \<Rightarrow> Inl SQLAlchemyError | Some t \<Rightarrow> Inr (tcols t))"

text \<open>
  The rows of one \<open>INSERT ... VALUES ... ON CONFLICT (key) DO UPDATE SET c = EXCLUDED.c\<close>
  statement, applied in order. A row's columns outside the column list are NULL. The
  statement fails on a NULL key (primary key) and on a key that an earlier row of the
  same statement wrote (the command cannot affect a row a second time). An existing
  row with the key takes the incoming values in the listed columns; otherwise the row
  is appended.
\<close>

definition incoming_row :: "string list \<Rightarrow> string list \<Rightarrow> cell list \<Rightarrow> cell list" where
  "incoming_row tc cols r = map (\<lambda>c. if c \<in> set cols then cell_at r (index_of c cols) else Null) tc"

definition merge_row :: "string list \<Rightarrow> string list \<Rightarrow> cell list \<Rightarrow> cell list \<Rightarrow> cell list" where
  "merge_row tc cols r old =
     map (\<lambda>(c, v). if c \<in> set cols then cell_at r (index_of c cols) else v) (zip tc old)"

fun upsert_rows :: "table \<Rightarrow> string list \<Rightarrow> string \<Rightarrow> cell list \<Rightarrow> cell list list \<Rightarrow> table option" where
  "upsert_rows t cols unique_key touched [] = Some t"
| "upsert_rows t cols unique_key touched (r # rs) =
     (let ki = index_of unique_key (tcols t);
          k = cell_at (incoming_row (tcols t) cols r) ki
      in if k = Null then None
         else if k \<in> set touched then None
         else if k \<in> (\<lambda>old. cell_at old ki) ` set (trows t)
           then upsert_rows
                  (t\<lparr>trows := map (\<lambda>old. if cell_at old ki = k then merge_row (tcols t) cols r old else old)
                                 (trows t)\<rparr>)
                  cols unique_key (k # touched) rs
         else upsert_rows (t\<lparr>trows := trows t @ [incoming_row (tcols t) cols r]\<rparr>)
                cols unique_key (k # touched) rs)"

text \<open>
  One statement of the upsert, as PostgreSQL treats it. It is refused when the
  \<open>SET\<close> list is empty (a syntax error), when the table or a listed column does not
  exist or a column is listed twice, when a \<open>VALUES\<close> row does not have exactly one
  expression per listed column, and when the conflict column is not the primary key.
\<close>

definition execute_upsert ::
  "string \<Rightarrow> string list \<Rightarrow> string \<Rightarrow> string list \<Rightarrow> cell list list \<Rightarrow> database \<Rightarrow> pyerr + database" where
  "execute_upsert table_name cols unique_key update_cols tuples db =
     (if update_cols = [] then Inl DatabaseError
      else case db table_name of
             None \<Rightarrow> Inl DatabaseError
           | Some t \<Rightarrow>
               if \<not> (set cols \<subseteq> set (tcols t) \<and> distinct cols) then Inl DatabaseError
               else if \<not> list_all (\<lambda>r. length r = length cols) tuples then Inl DatabaseError
               else if tpk t \<noteq> Some unique_key then Inl DatabaseError
               else (case upsert_rows t cols unique_key [] tuples of
                       None \<Rightarrow> Inl DatabaseError
                     | Some t' \<Rightarrow> Inr (db(table_name \<mapsto> t'))))"

text \<open>
  \<open>execute_values(cursor, sql, data_tuples, page_size)\<close>: the tuples go to the server
  in pages, one statement per page, inside the connection's transaction. The first
  statement that fails raises and leaves the earlier pages applied in the transaction.
\<close>

function chunks :: "nat \<Rightarrow> 'a list \<Rightarrow> 'a list list" where
  "chunks n xs = (if n = 0 \<or> xs = [] then [] else take n xs # chunks n (drop n xs))"
  by pat_completeness auto
termination
  by (relation "measure (\<lambda>(n, xs). length xs)") auto

fun execute_pages ::
  "string \<Rightarrow> string list \<Rightarrow> string \<Rightarrow> string list \<Rightarrow> cell list list list \<Rightarrow> connection
   \<Rightarrow> pyerr option \<times> connection" where
  "execute_pages table_name cols unique_key update_cols [] conn = (None, conn)"
| "execute_pages table_name cols unique_key update_cols (page # pages) conn =
     (case execute_upsert table_name cols unique_key update_cols page (working conn) of
        Inl e \<Rightarrow> (Some e, conn)
      | Inr db' \<Rightarrow> execute_pages table_name cols unique_key update_cols pages (conn\<lparr>working := db'\<rparr>))"

definition execute_values ::
  "connection \<Rightarrow> string \<Rightarrow> string list \<Rightarrow> string \<Rightarrow> string list \<Rightarrow> cell list list \<Rightarrow> nat
   \<Rightarrow> pyerr option \<times> connection" where
  "execute_values conn table_name cols unique_key update_cols data_tuples page_size =
     execute_pages table_name cols unique_key update_cols (chunks page_size data_tuples) conn"

text \<open>\<open>df[cols]\<close>: the frame reduced to the listed columns, in that order.\<close>

definition select_columns :: "string list \<Rightarrow> frame \<Rightarrow> frame" where
  "select_columns cols df =
     \<lparr>columns = cols, rows = map (\<lambda>r. map (\<lambda>c. cell_at r (index_of c (columns df))) cols) (rows df)\<rparr>"

text \<open>
  \<open>df.replace({pd.NA: None, np.nan: None})\<close>: every missing marker becomes
  \<open>None\<close>; all of them are \<open>Null\<close> here.
\<close>

definition replace_na :: "frame \<Rightarrow> frame" where
  "replace_na df = df"

text \<open>
  \<open>upsert_data\<close>. The column list of the statement is built from
  \<open>cols_to_upsert\<close>; \<open>df_filtered\<close> is computed and not used again, and the tuples
  are the rows of \<open>df\<close> itself. Any exception rolls the transaction back and is
  raised again.
\<close>

definition upsert_data ::
  "database \<Rightarrow> frame \<Rightarrow> string \<Rightarrow> string \<Rightarrow> (pyerr + unit) \<times> database \<times> event list" where
  "upsert_data db df table_name unique_key =
     (if is_empty df then (Inr (), db, [])
      else
        let conn = raw_connection db;
            (db_columns, evs0) =
               (case get_columns db table_name of
                  Inr cs \<Rightarrow> (cs, [])
                | Inl e \<Rightarrow> (columns df, [Error_inspect_columns]));
            original_cols = columns df;
            cols_to_upsert = filter (\<lambda>col. col \<in> set db_columns) original_cols;
            dropped_cols = filter (\<lambda>col. col \<notin> set db_columns) original_cols;
            evs1 = evs0 @ (if dropped_cols \<noteq> [] then [Warn_columns_dropped dropped_cols] else []);
            df_filtered = select_columns cols_to_upsert df;
            df2 = replace_na df;
            data_tuples = rows df2;
            update_cols = filter (\<lambda>col. col \<noteq> unique_key) cols_to_upsert
        in case execute_values conn table_name cols_to_upsert unique_key update_cols data_tuples 500 of
             (None, conn1) \<Rightarrow> (Inr (), committed (commit conn1), evs1 @ [Db_commit])
           | (Some e, conn1) \<Rightarrow> (Inl e, committed (rollback conn1), evs1 @ [Db_rollback, Error_upsert]))"

text \<open>
  \<open>create_staging_table\<close>: \<open>CREATE TABLE IF NOT EXISTS\<close> with \<open>incident_number\<close> as
  primary key and every other column of the frame as TEXT, or, for an empty frame,
  with the key column alone. The statement takes effect when the call returns. For a
  frame whose only column is the key, the statement ends in a comma before the closing
  parenthesis and is refused; a table that exists is left as it is; a column named
  twice is refused.
\<close>

definition execute_create :: "database \<Rightarrow> string \<Rightarrow> string list \<Rightarrow> bool \<Rightarrow> pyerr + database" where
  "execute_create db table_name column_defs minimal =
     (if \<not> minimal \<and> column_defs = [] then Inl SQLAlchemyError
      else case db table_name of
             Some t \<Rightarrow> Inr db
           | None \<Rightarrow>
               if \<not> distinct column_defs then Inl SQLAlchemyError
               else Inr (db(table_name \<mapsto>
                      \<lparr>tcols = ''incident_number'' # column_defs, tpk = Some ''incident_number'', trows = []\<rparr>)))"

definition create_staging_table ::
  "database \<Rightarrow> frame \<Rightarrow> string \<Rightarrow> (pyerr + unit) \<times> database \<times> event list" where
  "create_staging_table db df table_name =
     (let (evs0, column_defs, minimal) =
            (if is_empty df then ([Warn_cannot_infer_schema], [], True)
             else ([], filter (\<lambda>col. col \<noteq> ''incident_number'') (columns df), False))
      in case execute_create db table_name column_defs minimal of
           Inl e \<Rightarrow> (Inl e, db, evs0 @ [Error_create_table])
         | Inr db' \<Rightarrow> (Inr (), db', evs0))"

text \<open>
  \<open>load_data_to_staging\<close>: nothing is done for an empty frame; a frame without the key
  column raises ValueError before any statement; otherwise the table is ensured and
  the frame upserted, and an exception of either is logged and raised again.
\<close>

definition load_data_to_staging ::
  "config \<Rightarrow> database \<Rightarrow> frame \<Rightarrow> (pyerr + unit) \<times> database \<times> event list" where
  "load_data_to_staging cfg db df =
     (if is_empty df then (Inr (), db, [])
      else if ''incident_number'' \<notin> set (columns df)
        then (Inl ValueError, db, [Error_unique_key_missing])
      else case create_staging_table db df (STAGING_TABLE_NAME cfg) of
             (Inl e, db1, evs1) \<Rightarrow> (Inl e, db1, evs1 @ [Error_load])
           | (Inr u, db1, evs1) \<Rightarrow>
               (case upsert_data db1 df (STAGING_TABLE_NAME cfg) ''incident_number'' of
                  (Inl e, db2, evs2) \<Rightarrow> (Inl e, db2, evs1 @ evs2 @ [Error_load])
                | (Inr u2, db2, evs2) \<Rightarrow> (Inr (), db2, evs1 @ evs2)))"

section \<open>Watermark store (etl/utils.py)\<close>

text \<open>The state file: absent, unreadable (an IOError on reading) or with a content.\<close>

datatype file_state = Missing | Unreadable | Contents string

text \<open>\<open>str.strip()\<close> on the ASCII whitespace.\<close>

definition is_space :: "char \<Rightarrow> bool" where
  "is_space c = (c \<in> set [CHR 0x09, CHR 0x0A, CHR 0x0B, CHR 0x0C, CHR 0x0D,
                           CHR 0x1C, CHR 0x1D, CHR 0x1E, CHR 0x1F, CHR 0x20])"

definition strip :: "string \<Rightarrow> string" where
  "strip s = rev (dropWhile is_space (rev (dropWhile is_space s)))"

definition get_last_run_timestamp :: "file_state \<Rightarrow> string option \<times> event list" where
  "get_last_run_timestamp f =
     (case f of
        Contents s \<Rightarrow> (if strip s \<noteq> [] then (Some (strip s), []) else (None, []))
      | Missing \<Rightarrow> (None, [])
      | Unreadable \<Rightarrow> (None, [Error_reading_watermark]))"

text \<open>
  What a run works on: whether the database accepts a connection, the database, the
  state file and whether it can be written.
\<close>

record world =
  db_online :: bool
  warehouse :: database
  wm_file :: file_state
  wm_writable :: bool

text \<open>\<open>save_last_run_timestamp\<close>: an IOError is logged and not raised.\<close>

definition save_last_run_timestamp :: "world \<Rightarrow> string \<Rightarrow> world \<times> event list" where
  "save_last_run_timestamp w ts =
     (if wm_writable w then (w\<lparr>wm_file := Contents ts\<rparr>, [Wrote_watermark ts])
      else (w, [Error_writing_watermark]))"

section \<open>Orchestrator (etl/main.py)\<close>

text \<open>
  \<open>timestamps.max()\<close> after \<open>if not timestamps.isnull().all()\<close>: none when every
  entry is missing, otherwise the latest entry. On a datetime64 column NaT is skipped;
  on a column of objects the comparison raises TypeError unless every entry is a
  datetime value.
\<close>

definition max_timestamp :: "dtcolumn \<Rightarrow> pyerr + timestamp option" where
  "max_timestamp timestamps =
     (case timestamps of
        Datetime64 ts \<Rightarrow>
          (case List.map_filter id ts of
             [] \<Rightarrow> Inr None
           | t # ts' \<Rightarrow> Inr (Some (fold later ts' t)))
      | Objects cs \<Rightarrow>
          (if list_all (\<lambda>c. c = Null) cs then Inr None
           else if list_all is_ts cs
             then (case List.map_filter (\<lambda>c. case c of Ts t \<Rightarrow> Some t | _ \<Rightarrow> None) cs of
                     [] \<Rightarrow> Inr None
                   | t # ts' \<Rightarrow> Inr (Some (fold later ts' t)))
           else Inl TypeError))"

text \<open>
  The latest timestamp of the fetched batch:
  \<open>pd.to_datetime(raw_data_df[col], errors='coerce')\<close>, its maximum over the entries
  that are not missing, formatted and cut by three characters to milliseconds.
\<close>

definition latest_timestamp :: "pylib \<Rightarrow> frame \<Rightarrow> (pyerr + string option) \<times> event list" where
  "latest_timestamp py raw_data_df =
     (if INCREMENTAL_COLUMN \<in> set (columns raw_data_df) then
        (case to_datetime py (column raw_data_df INCREMENTAL_COLUMN) of
           Inl e \<Rightarrow> (Inl e, [])
         | Inr timestamps \<Rightarrow>
             (case max_timestamp timestamps of
                Inl e \<Rightarrow> (Inl e, [])
              | Inr None \<Rightarrow> (Inr None, [Warn_no_latest_timestamp])
              | Inr (Some latest) \<Rightarrow>
                  (Inr (Some (take (length (strftime latest) - 3) (strftime latest))), [])))
      else (Inr None, [Warn_incremental_column_missing]))"

text \<open>
  \<open>run_etl\<close>: the exit status of the process (\<open>sys.exit\<close>, or 0 when the function
  returns), the world it leaves and the events in order. \<open>sys.exit\<close> raises
  SystemExit, which \<open>except Exception\<close> does not catch.
\<close>

definition run_etl :: "config \<Rightarrow> pylib \<Rightarrow> api \<Rightarrow> world \<Rightarrow> nat \<times> world \<times> event list" where
  "run_etl cfg py srv w =
     (if \<not> db_online w then (1, w, [Critical_etl_failed])
      else
        let (last_run_ts, evs0) = get_last_run_timestamp (wm_file w);
            (raw, evs1) = fetch_fire_data cfg py srv last_run_ts
        in case raw of
             None \<Rightarrow> (1, w, evs0 @ evs1 @ [Error_extraction_failed])
           | Some raw_data_df \<Rightarrow>
               if is_empty raw_data_df then (0, w, evs0 @ evs1)
               else
                 (case latest_timestamp py raw_data_df of
                    (Inl e, evs2) \<Rightarrow> (1, w, evs0 @ evs1 @ evs2 @ [Critical_etl_failed])
                  | (Inr latest_processed_timestamp, evs2) \<Rightarrow>
                      (case transform_data py raw_data_df of
                         (Inl e, evs3) \<Rightarrow> (1, w, evs0 @ evs1 @ evs2 @ evs3 @ [Critical_etl_failed])
                       | (Inr transformed_df, evs3) \<Rightarrow>
                           if is_empty transformed_df then
                             (case latest_processed_timestamp of
                                Some ts \<Rightarrow>
                                  if ts \<noteq> [] \<and> last_run_ts \<noteq> Some ts then
                                    (let (w1, evs4) = save_last_run_timestamp w ts
                                     in (0, w1, evs0 @ evs1 @ evs2 @ evs3 @ evs4))
                                  else (0, w, evs0 @ evs1 @ evs2 @ evs3)
                              | None \<Rightarrow> (0, w, evs0 @ evs1 @ evs2 @ evs3))
                           else
                             (case load_data_to_staging cfg (warehouse w) transformed_df of
                                (Inl e, db1, evs4) \<Rightarrow>
                                  (1, w\<lparr>warehouse := db1\<rparr>,
                                   evs0 @ evs1 @ evs2 @ evs3 @ [Call_load_data_to_staging] @ evs4
                                     @ [Critical_etl_failed])
                              | (Inr u, db1, evs4) \<Rightarrow>
                                  (case latest_processed_timestamp of
                                     Some ts \<Rightarrow>
                                       if ts \<noteq> [] \<and> last_run_ts \<noteq> Some ts then
                                         (let (w1, evs5) = save_last_run_timestamp (w\<lparr>warehouse := db1\<rparr>) ts
                                          in (0, w1, evs0 @ evs1 @ evs2 @ evs3
                                                @ [Call_load_data_to_staging] @ evs4 @ evs5))
                                       else if ts = [] then
                                         (0, w\<lparr>warehouse := db1\<rparr>, evs0 @ evs1 @ evs2 @ evs3
                                            @ [Call_load_data_to_staging] @ evs4 @ [Warn_watermark_not_updated])
                                       else (0, w\<lparr>warehouse := db1\<rparr>, evs0 @ evs1 @ evs2 @ evs3
                                               @ [Call_load_data_to_staging] @ evs4)
                                   | None \<Rightarrow>
                                       (0, w\<lparr>warehouse := db1\<rparr>, evs0 @ evs1 @ evs2 @ evs3
                                          @ [Call_load_data_to_staging] @ evs4 @ [Warn_watermark_not_updated]))))))"


section \<open>The remote dataset as a list, and example inputs\<close>

text \<open>The HTTP requests among the events.\<close>

fun is_http_get :: "event \<Rightarrow> bool" where
  "is_http_get (HttpGet r) = True"
| "is_http_get e = False"

text \<open>An API honours \<open>$limit\<close> when no page has more records than the request allows.\<close>

definition honours_limit :: "api \<Rightarrow> bool" where
  "honours_limit srv = (\<forall>req page. srv req = Inr page \<longrightarrow> length page \<le> nat (limit req))"

text \<open>
  A source that holds the records \<open>src\<close> (those the filter selects, in the order of
  the API) and answers every request with the page at its offset.
\<close>

definition serves :: "raw_record list \<Rightarrow> api" where
  "serves src req = Inr (take (nat (limit req)) (drop (nat (offset req)) src))"

text \<open>A source that ignores \<open>$limit\<close> and \<open>$offset\<close>: every page is the whole of \<open>src\<close>.\<close>

definition serves_all :: "raw_record list \<Rightarrow> api" where
  "serves_all src req = Inr src"

definition cfg_example :: "int \<Rightarrow> config" where
  "cfg_example b = \<lparr>BATCH_SIZE = b, API_APP_TOKEN = Some ''token'', STAGING_TABLE_NAME = ''stg_fire_incidents_raw''\<rparr>"

definition incident :: "nat \<Rightarrow> raw_record" where
  "incident i = [(''incident_number'', Str (digits i)), (''response_timestamp'', Str ''2024-01-01T00:00:00.000'')]"

definition incidents :: "nat \<Rightarrow> raw_record list" where
  "incidents n = map incident [0..<n]"

definition py_any :: pylib where
  "py_any = \<lparr>to_numeric = Inr, astype_string = Inr,
             to_datetime = (\<lambda>xs. Inr (Datetime64 (map (\<lambda>c. None) xs))),
             fromisoformat = (\<lambda>s. False)\<rparr>"


text \<open>A staging table with two columns and one stored row, and batches for it.\<close>

definition stg :: string where
  "stg = ''stg_fire_incidents_raw''"

definition table_example :: table where
  "table_example = \<lparr>tcols = [''incident_number'', ''address''], tpk = Some ''incident_number'',
                     trows = [[Str ''1'', Str ''old'']]\<rparr>"

definition db_example :: database where
  "db_example = Map.empty(stg \<mapsto> table_example)"

definition frame_extra_column :: frame where
  "frame_extra_column = \<lparr>columns = [''incident_number'', ''address'', ''new_col''],
                          rows = [[Str ''2'', Str ''b'', Str ''x'']]\<rparr>"

definition frame_null_key :: frame where
  "frame_null_key = \<lparr>columns = [''incident_number'', ''address''],
                      rows = [[Str ''1'', Str ''new''], [Null, Str ''x'']]\<rparr>"


text \<open>
  What a row holds in the key column, and the sort key of what it holds in the
  incremental column.
\<close>

definition key_of :: "frame \<Rightarrow> cell list \<Rightarrow> cell" where
  "key_of df r = cell_at r (index_of ''incident_number'' (columns df))"

definition stamp_of ::
  "frame \<Rightarrow> cell list \<Rightarrow> nat \<times> string \<times> real \<times> (nat \<times> nat \<times> nat \<times> nat \<times> nat \<times> nat \<times> nat)" where
  "stamp_of df r = cell_key (cell_at r (index_of INCREMENTAL_COLUMN (columns df)))"



text \<open>
  A stand-in for the parsers of Python and pandas on the format the API emits,
  \<open>YYYY-MM-DDTHH:MM:SS.mmm\<close>: the timestamp of a string of that form, and none for
  any other value. \<open>py_iso\<close> uses it for \<open>to_datetime\<close> and \<open>fromisoformat\<close>, reads
  numeric columns as natural numbers and leaves string columns as they are.
\<close>

fun digits_val :: "string \<Rightarrow> nat option" where
  "digits_val [] = Some 0"
| "digits_val (c # cs) =
     (if c \<in> set ''0123456789''
      then map_option (\<lambda>v. index_of c ''0123456789'' * 10 ^ length cs + v) (digits_val cs)
      else None)"

definition parse_iso :: "string \<Rightarrow> timestamp option" where
  "parse_iso s =
     (if length s = 23 \<and> s ! 4 = CHR ''-'' \<and> s ! 7 = CHR ''-'' \<and> s ! 10 = CHR ''T''
         \<and> s ! 13 = CHR '':'' \<and> s ! 16 = CHR '':'' \<and> s ! 19 = CHR ''.''
      then (case (digits_val (take 4 s), digits_val (take 2 (drop 5 s)), digits_val (take 2 (drop 8 s)),
                  digits_val (take 2 (drop 11 s)), digits_val (take 2 (drop 14 s)),
                  digits_val (take 2 (drop 17 s)), digits_val (take 3 (drop 20 s))) of
              (Some y, Some mo, Some d, Some h, Some mi, Some sec, Some ms) \<Rightarrow>
                Some \<lparr>year = y, month = mo, day = d, hour = h, minute = mi, second = sec,
                      microsecond = ms * 1000\<rparr>
            | _ \<Rightarrow> None)
      else None)"

definition cell_timestamp :: "cell \<Rightarrow> timestamp option" where
  "cell_timestamp c = (case c of Str s \<Rightarrow> parse_iso s | _ \<Rightarrow> None)"

definition cell_number :: "cell \<Rightarrow> cell" where
  "cell_number c =
     (case c of
        Str s \<Rightarrow> (if s = [] then Null else case digits_val s of Some n \<Rightarrow> Num (real n) | None \<Rightarrow> Null)
      | _ \<Rightarrow> c)"

definition py_iso :: pylib where
  "py_iso = \<lparr>to_numeric = (\<lambda>xs. Inr (map cell_number xs)),
             astype_string = Inr,
             to_datetime = (\<lambda>xs. Inr (Datetime64 (map cell_timestamp xs))),
             fromisoformat = (\<lambda>s. parse_iso s \<noteq> None)\<rparr>"









text \<open>The events by the component that produces them.\<close>

fun extractor_event :: "event \<Rightarrow> bool" where
  "extractor_event (HttpGet r) = True"
| "extractor_event Warn_no_app_token = True"
| "extractor_event (Error_invalid_last_run_timestamp s) = True"
| "extractor_event Warn_max_iterations = True"
| "extractor_event Error_fetching = True"
| "extractor_event e = False"

fun transform_event :: "event \<Rightarrow> bool" where
  "transform_event (Warn_duplicate_column a b) = True"
| "transform_event (Warn_could_not_convert c) = True"
| "transform_event (Warn_expected_column_missing c) = True"
| "transform_event (Warn_could_not_parse_datetime c) = True"
| "transform_event (Warn_datetime_column_missing c) = True"
| "transform_event (Warn_dq_missing_pk n) = True"
| "transform_event Error_dq_pk_column_missing = True"
| "transform_event (Warn_dq_duplicates n) = True"
| "transform_event Warn_dq_issues = True"
| "transform_event e = False"

fun loader_event :: "event \<Rightarrow> bool" where
  "loader_event Error_inspect_columns = True"
| "loader_event (Warn_columns_dropped cs) = True"
| "loader_event Db_commit = True"
| "loader_event Db_rollback = True"
| "loader_event Error_upsert = True"
| "loader_event Warn_cannot_infer_schema = True"
| "loader_event Error_create_table = True"
| "loader_event Error_unique_key_missing = True"
| "loader_event Error_load = True"
| "loader_event e = False"

fun is_write :: "event \<Rightarrow> bool" where
  "is_write (Wrote_watermark ts) = True"
| "is_write e = False"


text \<open>
  Worlds and sources for whole runs: a reachable database and a writable state file
  with the given content; two records of which the second has no key; a state file
  whose content is no timestamp.
\<close>

definition world_example :: "file_state \<Rightarrow> database \<Rightarrow> world" where
  "world_example f db = \<lparr>db_online = True, warehouse = db, wm_file = f, wm_writable = True\<rparr>"

definition records_null_key :: "raw_record list" where
  "records_null_key =
     [[(''incident_number'', Str ''1''), (''response_timestamp'', Str ''2024-01-01T00:00:00.000'')],
      [(''response_timestamp'', Str ''2024-01-01T00:00:01.000'')]]"

definition frame_null_key_raw :: frame where
  "frame_null_key_raw =
     \<lparr>columns = [''incident_number'', ''response_timestamp''],
      rows = [[Str ''1'', Str ''2024-01-01T00:00:00.000''],
              [Null, Str ''2024-01-01T00:00:01.000'']]\<rparr>"


text \<open>A batch with two rows without key, of different timestamps, and one row with a key.\<close>

definition frame_null_keys :: frame where
  "frame_null_keys =
     \<lparr>columns = [''incident_number'', ''response_timestamp''],
      rows = [[Null, Str ''2024-01-01T00:00:02.000''],
              [Null, Str ''2024-01-01T00:00:01.000''],
              [Str ''1'', Str ''2024-01-01T00:00:03.000'']]\<rparr>"

declare fetch_loop.simps [simp del]

declare digits.simps [simp del]

declare chunks.simps [simp del]

lemma fetch_loop_requests:
  "length (filter is_http_get (snd (fetch_loop srv lmt wh ofs n all_data evs)))
     \<le> length (filter is_http_get evs) + max 1 (max_iterations - n)"
proof (induction srv lmt wh ofs n all_data evs rule: fetch_loop.induct)
  case (1 srv lmt wh ofs n all_data evs)
  show ?case
  proof (cases "srv \<lparr>offset = ofs, limit = lmt, where_clause = wh\<rparr>")
    case (Inl e)
    then show ?thesis by (subst fetch_loop.simps) (simp add: Let_def)
  next
    case (Inr batch)
    show ?thesis
    proof (cases "batch \<noteq> [] \<and> \<not> int (length batch) < lmt \<and> \<not> max_iterations \<le> n + 1")
      case True
      with Inr 1[OF refl refl Inr] have
        "length (filter is_http_get (snd (fetch_loop srv lmt wh (ofs + lmt) (n + 1) (all_data @ batch)
            (evs @ [HttpGet \<lparr>offset = ofs, limit = lmt, where_clause = wh\<rparr>]))))
         \<le> length (filter is_http_get (evs @ [HttpGet \<lparr>offset = ofs, limit = lmt, where_clause = wh\<rparr>]))
             + max 1 (max_iterations - (n + 1))"
        by simp
      with True Inr show ?thesis
        by (subst fetch_loop.simps) (simp add: Let_def max_iterations_def, arith)
    next
      case False
      with Inr show ?thesis
        by (subst fetch_loop.simps) (auto simp add: Let_def)
    qed
  qed
qed

lemma fetch_loop_size:
  "honours_limit srv \<Longrightarrow> fst (fetch_loop srv lmt wh ofs n all_data evs) = Some res \<Longrightarrow>
     length res \<le> length all_data + max 1 (max_iterations - n) * nat lmt"
proof (induction srv lmt wh ofs n all_data evs rule: fetch_loop.induct)
  case (1 srv lmt wh ofs n all_data evs)
  show ?case
  proof (cases "srv \<lparr>offset = ofs, limit = lmt, where_clause = wh\<rparr>")
    case (Inl e)
    with 1(3) show ?thesis by (subst (asm) fetch_loop.simps) (simp add: Let_def)
  next
    case (Inr batch)
    from 1(2)[unfolded honours_limit_def] Inr
    have "length batch \<le> nat (limit \<lparr>offset = ofs, limit = lmt, where_clause = wh\<rparr>)"
      by blast
    then have len: "length batch \<le> nat lmt" by simp
    have m: "nat lmt \<le> max 1 (max_iterations - n) * nat lmt"
      by (simp add: max_def)
    have len2: "length batch \<le> max 1 (max_iterations - n) * nat lmt"
      by (rule le_trans[OF len m])
    show ?thesis
    proof (cases "batch \<noteq> [] \<and> \<not> int (length batch) < lmt \<and> \<not> max_iterations \<le> n + 1")
      case True
      with Inr 1(3) have "fst (fetch_loop srv lmt wh (ofs + lmt) (n + 1) (all_data @ batch)
            (evs @ [HttpGet \<lparr>offset = ofs, limit = lmt, where_clause = wh\<rparr>])) = Some res"
        by (subst (asm) fetch_loop.simps) (simp add: Let_def)
      with True Inr 1(1)[OF refl refl Inr _ _ _ 1(2)] have
        "length res \<le> length (all_data @ batch) + max 1 (max_iterations - (n + 1)) * nat lmt"
        by simp
      moreover from True have "max 1 (max_iterations - n) = Suc (max 1 (max_iterations - (n + 1)))"
        by (simp add: max_iterations_def) arith
      ultimately show ?thesis using len by simp
    next
      case False
      with Inr 1(3) len2 show ?thesis
        by (subst (asm) fetch_loop.simps) (auto simp add: Let_def split: if_splits)
    qed
  qed
qed

lemma is_http_get_map [simp]: "filter is_http_get (map HttpGet rs) = map HttpGet rs"
  by (induction rs) auto

lemma serves_page:
  "serves src \<lparr>offset = int (n * b), limit = int b, where_clause = wh\<rparr> = Inr (take b (drop (n * b) src))"
  by (simp add: serves_def flip: of_nat_mult)

lemma fetch_loop_serves:
  "0 < b \<Longrightarrow> n < max_iterations \<Longrightarrow> n * b \<le> length src \<Longrightarrow> k = max_iterations - Suc n \<Longrightarrow>
   fetch_loop (serves src) (int b) wh (int (n * b)) n (take (n * b) src) evs =
     (Some (take (max_iterations * b) src),
      evs @ map (\<lambda>i. HttpGet \<lparr>offset = int (i * b), limit = int b, where_clause = wh\<rparr>)
              [n..<min (length src div b + 1) max_iterations]
          @ (if max_iterations * b \<le> length src then [Warn_max_iterations] else []))"
proof (induction k arbitrary: n evs)
  case (0 n evs)
  note step = 0
  let ?page = "take b (drop (n * b) src)"
  have ge: "n \<le> length src div b" using step by (simp add: less_eq_div_iff_mult_less_eq)
  have n9: "max_iterations = Suc n" using step by simp
  consider (nomore) "length src = n * b" | (short) "n * b < length src" "length src < n * b + b"
    | (full) "n * b + b \<le> length src" using step by linarith
  then show ?case
  proof cases
    case nomore
    then have d: "length src div b = n" using step by simp
    have e: "?page = []" using nomore by simp
    have t: "take (Suc n * b) src = take (n * b) src" using nomore step by simp
    have w: "\<not> Suc n * b \<le> length src" using nomore step by simp
    show ?thesis
      by (subst fetch_loop.simps, simp only: serves_page Let_def sum.case e if_True if_False refl)
         (simp add: t w d n9 del: mult_Suc)
  next
    case short
    then have d: "length src div b = n" using step ge
      by (metis add.commute div_less_iff_less_mult le_antisym less_Suc_eq_le mult_Suc)
    have ne: "?page \<noteq> []" using short step by simp
    have "length ?page < b" using short by (simp add: min_def; arith)
    then have sh: "int (length ?page) < int b" by (simp only: of_nat_less_iff)
    have t: "take (n * b) src @ ?page = take (Suc n * b) src"
      using short step by (simp add: take_add[symmetric])
    have w: "\<not> Suc n * b \<le> length src" using short step by simp
    show ?thesis
      by (subst fetch_loop.simps, simp only: serves_page Let_def sum.case ne sh t if_True if_False refl)
         (simp add: t w d n9 del: mult_Suc)
  next
    case full
    then have d: "Suc n \<le> length src div b" using step by (simp add: less_eq_div_iff_mult_less_eq)
    have ne: "?page \<noteq> []" using full step by auto
    have "length ?page = b" using full by (simp add: min_def; arith)
    then have sh: "\<not> int (length ?page) < int b" by simp
    have t: "take (n * b) src @ ?page = take (Suc n * b) src"
      by (simp add: take_add[symmetric] add.commute)
    have w: "Suc n * b \<le> length src" using full by (simp add: add.commute)
    have m: "min (length src div b + 1) (Suc n) = Suc n" using d by simp
    show ?thesis
      by (subst fetch_loop.simps, simp only: serves_page Let_def sum.case ne sh t if_True if_False refl)
         (simp add: t w m n9 ge d del: mult_Suc)
  qed
next
  case (Suc k n evs)
  note step = Suc.prems
  let ?req = "\<lparr>offset = int (n * b), limit = int b, where_clause = wh\<rparr>"
  let ?page = "take b (drop (n * b) src)"
  have ge: "n \<le> length src div b" using step by (simp add: less_eq_div_iff_mult_less_eq)
  have nlt: "Suc n < max_iterations" using step by simp
  consider (nomore) "length src = n * b" | (short) "n * b < length src" "length src < n * b + b"
    | (full) "n * b + b \<le> length src" using step by linarith
  then show ?case
  proof cases
    case nomore
    then have d: "length src div b = n" using step by simp
    have e: "?page = []" using nomore by simp
    have t: "take (max_iterations * b) src = take (n * b) src" using nomore step by simp
    have w: "\<not> max_iterations * b \<le> length src" using nomore step by simp
    have m: "min (Suc (length src div b)) max_iterations = Suc n" using d nlt by simp
    show ?thesis
      by (subst fetch_loop.simps, simp only: serves_page Let_def sum.case e if_True if_False refl)
         (simp add: t w m del: mult_Suc)
  next
    case short
    then have d: "length src div b = n" using step ge
      by (metis add.commute div_less_iff_less_mult le_antisym less_Suc_eq_le mult_Suc)
    have ne: "?page \<noteq> []" using short step by simp
    have "length ?page < b" using short by (simp add: min_def; arith)
    then have sh: "int (length ?page) < int b" by (simp only: of_nat_less_iff)
    have "length src \<le> max_iterations * b"
    proof -
      have "Suc n * b \<le> max_iterations * b" using nlt by (intro mult_le_mono1) simp
      with short show ?thesis by (simp add: add.commute)
    qed
    then have t: "take (n * b) src @ ?page = take (max_iterations * b) src"
      using short by (simp add: take_add[symmetric])
    have w: "\<not> max_iterations * b \<le> length src"
    proof -
      have "Suc n * b \<le> max_iterations * b" using nlt by (intro mult_le_mono1) simp
      with short show ?thesis by (simp add: add.commute)
    qed
    have m: "min (Suc (length src div b)) max_iterations = Suc n" using d nlt by simp
    show ?thesis
      by (subst fetch_loop.simps, simp only: serves_page Let_def sum.case ne sh t if_True if_False refl)
         (simp add: t w m del: mult_Suc)
  next
    case full
    then have d: "Suc n \<le> length src div b" using step by (simp add: less_eq_div_iff_mult_less_eq)
    have ne: "?page \<noteq> []" using full step by auto
    have "length ?page = b" using full by (simp add: min_def; arith)
    then have sh: "\<not> int (length ?page) < int b" by simp
    have t: "take (n * b) src @ ?page = take (Suc n * b) src"
      by (simp add: take_add[symmetric] add.commute)
    have ofs: "int (n * b) + int b = int (Suc n * b)" by simp
    have le: "Suc n * b \<le> length src" using full by (simp add: add.commute)
    have k: "k = max_iterations - Suc (Suc n)" using step by simp
    have lt: "n < min (length src div b + 1) max_iterations" using ge nlt by simp
    have upt: "[n..<min (length src div b + 1) max_iterations]
                 = n # [Suc n..<min (length src div b + 1) max_iterations]"
      using lt by (simp add: upt_conv_Cons)
    have nn: "\<not> max_iterations \<le> n + 1" using nlt by simp
    show ?thesis
      apply (subst fetch_loop.simps)
      apply (simp only: serves_page Let_def sum.case ne sh nn if_False t ofs)
      apply (simp only: Suc_eq_plus1[symmetric])
      apply (subst Suc.IH[OF step(1) nlt le k])
      apply (simp only: Suc_eq_plus1[symmetric] upt[simplified Suc_eq_plus1[symmetric]])
      apply (simp del: mult_Suc)
      done
  qed
qed

lemma fetch_fire_data_unfold:
  "fetch_fire_data cfg py srv wm =
     (if (\<exists>ts. wm = Some ts \<and> ts \<noteq> [] \<and> \<not> fromisoformat py ts)
      then (None, (if truthy (API_APP_TOKEN cfg) then [] else [Warn_no_app_token])
                    @ [Error_invalid_last_run_timestamp (the wm)])
      else (case fetch_loop srv (BATCH_SIZE cfg)
                  (case wm of None \<Rightarrow> None | Some ts \<Rightarrow> if ts = [] then None else Some (where_filter ts))
                  0 0 [] (if truthy (API_APP_TOKEN cfg) then [] else [Warn_no_app_token]) of
              (None, evs) \<Rightarrow> (None, evs)
            | (Some all_data, evs) \<Rightarrow>
                (Some (if all_data = [] then empty_frame else DataFrame all_data), evs)))"
  by (auto simp: fetch_fire_data_def Let_def split: option.splits prod.splits)

lemma rows_DataFrame [simp]: "rows (DataFrame recs) = map (record_row (columns (DataFrame recs))) recs"
  by (simp add: DataFrame_def Let_def)

lemma filter_start_events [simp]:
  "filter is_http_get (if truthy tok then [] else [Warn_no_app_token]) = []"
  by simp

lemma fetch_fire_data_cases:
  obtains
    (invalid) ts where "wm = Some ts" "ts \<noteq> []" "\<not> fromisoformat py ts"
      "fetch_fire_data cfg py srv wm =
         (None, (if truthy (API_APP_TOKEN cfg) then [] else [Warn_no_app_token])
                  @ [Error_invalid_last_run_timestamp ts])"
  | (failed) wh evs where
      "fetch_loop srv (BATCH_SIZE cfg) wh 0 0 []
         (if truthy (API_APP_TOKEN cfg) then [] else [Warn_no_app_token]) = (None, evs)"
      "fetch_fire_data cfg py srv wm = (None, evs)"
  | (fetched) wh all_data evs where
      "fetch_loop srv (BATCH_SIZE cfg) wh 0 0 []
         (if truthy (API_APP_TOKEN cfg) then [] else [Warn_no_app_token]) = (Some all_data, evs)"
      "fetch_fire_data cfg py srv wm =
         (Some (if all_data = [] then empty_frame else DataFrame all_data), evs)"
proof (cases "\<exists>ts. wm = Some ts \<and> ts \<noteq> [] \<and> \<not> fromisoformat py ts")
  case True
  then obtain ts where "wm = Some ts" "ts \<noteq> []" "\<not> fromisoformat py ts" by blast
  then show ?thesis using invalid[of ts] by (simp add: fetch_fire_data_unfold del: truthy.simps)
next
  case False
  let ?wh = "case wm of None \<Rightarrow> None | Some ts \<Rightarrow> if ts = [] then None else Some (where_filter ts)"
  obtain r evs where fl: "fetch_loop srv (BATCH_SIZE cfg) ?wh 0 0 []
         (if truthy (API_APP_TOKEN cfg) then [] else [Warn_no_app_token]) = (r, evs)"
    by (cases "fetch_loop srv (BATCH_SIZE cfg) ?wh 0 0 []
         (if truthy (API_APP_TOKEN cfg) then [] else [Warn_no_app_token])") blast
  show ?thesis
  proof (cases r)
    case None
    with fl False have "fetch_fire_data cfg py srv wm = (None, evs)"
      by (simp only: fetch_fire_data_unfold if_False prod.case option.case)
    with fl None show ?thesis using failed by blast
  next
    case (Some all_data)
    with fl False have "fetch_fire_data cfg py srv wm =
         (Some (if all_data = [] then empty_frame else DataFrame all_data), evs)"
      by (simp only: fetch_fire_data_unfold if_False prod.case option.case)
    with fl Some show ?thesis using fetched by blast
  qed
qed

lemma fetch_requests_le:
  "length (filter is_http_get (snd (fetch_fire_data cfg py srv wm))) \<le> max_iterations"
proof (cases rule: fetch_fire_data_cases[of wm py cfg srv])
  case (invalid ts)
  then show ?thesis by (simp del: truthy.simps)
next
  case (failed wh evs)
  with fetch_loop_requests[of srv "BATCH_SIZE cfg" wh 0 0 "[]"
      "if truthy (API_APP_TOKEN cfg) then [] else [Warn_no_app_token]"]
  show ?thesis by (simp add: max_iterations_def del: truthy.simps)
next
  case (fetched wh all_data evs)
  with fetch_loop_requests[of srv "BATCH_SIZE cfg" wh 0 0 "[]"
      "if truthy (API_APP_TOKEN cfg) then [] else [Warn_no_app_token]"]
  show ?thesis by (simp add: max_iterations_def del: truthy.simps)
qed

lemma fetch_rows_le:
  assumes "honours_limit srv" and "fst (fetch_fire_data cfg py srv wm) = Some df"
  shows "length (rows df) \<le> max_iterations * nat (BATCH_SIZE cfg)"
proof (cases rule: fetch_fire_data_cases[of wm py cfg srv])
  case (invalid ts)
  with assms(2) show ?thesis by simp
next
  case (failed wh evs)
  with assms(2) show ?thesis by simp
next
  case (fetched wh all_data evs)
  with fetch_loop_size[OF assms(1), of "BATCH_SIZE cfg" wh 0 0 "[]"
      "if truthy (API_APP_TOKEN cfg) then [] else [Warn_no_app_token]" all_data]
  have "length all_data \<le> max_iterations * nat (BATCH_SIZE cfg)"
    by (simp add: max_iterations_def del: truthy.simps)
  with fetched assms(2) show ?thesis by (auto simp: empty_frame_def)
qed

text \<open>
  Claim C9, as amended. Whatever the watermark and whatever the source answers, one
  call of \<open>fetch_fire_data\<close> issues at most 10 requests: the cap is the constant of
  the function, not a setting, and the loop is a total function. The bound of 10
  times \<open>BATCH_SIZE\<close> rows on the batch returned holds when the source honours
  \<open>$limit\<close>, that is, when no page has more records than the request allows; the
  loop appends every page whole, whatever its length.
\<close>

theorem page_cap:
  "length (filter is_http_get (snd (fetch_fire_data cfg py srv wm))) \<le> 10
   \<and> (honours_limit srv \<longrightarrow>
        (\<forall>df. fst (fetch_fire_data cfg py srv wm) = Some df
              \<longrightarrow> length (rows df) \<le> 10 * nat (BATCH_SIZE cfg)))"
  using fetch_requests_le[of cfg py srv wm] fetch_rows_le[of srv cfg py wm]
  by (simp add: max_iterations_def)

lemma honours_limit_serves: "honours_limit (serves src)"
  by (auto simp: honours_limit_def serves_def)

lemma fetch_serves:
  assumes "0 < BATCH_SIZE cfg" and "\<forall>ts. wm = Some ts \<longrightarrow> ts \<noteq> [] \<longrightarrow> fromisoformat py ts"
  shows "\<exists>wh. fetch_fire_data cfg py (serves src) wm =
     (Some (if src = [] then empty_frame else DataFrame (take (max_iterations * nat (BATCH_SIZE cfg)) src)),
      (if truthy (API_APP_TOKEN cfg) then [] else [Warn_no_app_token])
      @ map (\<lambda>i. HttpGet \<lparr>offset = int i * BATCH_SIZE cfg, limit = BATCH_SIZE cfg, where_clause = wh\<rparr>)
          [0..<min (length src div nat (BATCH_SIZE cfg) + 1) max_iterations]
      @ (if max_iterations * nat (BATCH_SIZE cfg) \<le> length src then [Warn_max_iterations] else []))"
proof -
  define b where "b = nat (BATCH_SIZE cfg)"
  have B: "BATCH_SIZE cfg = int b" and b: "0 < b" using assms(1) by (simp_all add: b_def)
  let ?wh = "case wm of None \<Rightarrow> None | Some ts \<Rightarrow> if ts = [] then None else Some (where_filter ts)"
  let ?evs0 = "if truthy (API_APP_TOKEN cfg) then [] else [Warn_no_app_token]"
  have valid: "\<not> (\<exists>ts. wm = Some ts \<and> ts \<noteq> [] \<and> \<not> fromisoformat py ts)"
    using assms(2) by blast
  have loop: "fetch_loop (serves src) (int b) ?wh 0 0 [] ?evs0 =
     (Some (take (max_iterations * b) src),
      ?evs0 @ map (\<lambda>i. HttpGet \<lparr>offset = int (i * b), limit = int b, where_clause = ?wh\<rparr>)
              [0..<min (length src div b + 1) max_iterations]
          @ (if max_iterations * b \<le> length src then [Warn_max_iterations] else []))"
    using fetch_loop_serves[of b 0 src "max_iterations - Suc 0" ?wh ?evs0] b
    by (simp add: max_iterations_def)
  have e: "take (max_iterations * b) src = [] \<longleftrightarrow> src = []"
    using b by (simp add: max_iterations_def)
  show ?thesis
    apply (rule exI[of _ ?wh])
    apply (simp only: fetch_fire_data_unfold valid if_False B loop prod.case option.case e nat_int)
    apply (simp del: truthy.simps)
    done
qed

lemma length_incidents [simp]: "length (incidents n) = n"
  by (simp add: incidents_def)

lemma incidents_nonempty [simp]: "0 < n \<Longrightarrow> incidents n \<noteq> []"
  by (simp add: incidents_def)

lemma batch_size_example [simp]: "BATCH_SIZE (cfg_example b) = b"
  by (simp add: cfg_example_def)

text \<open>
  Claim C7, as amended. Against a source that holds \<open>T\<close> records and serves them by
  offset and limit, with batch size \<open>B > 0\<close> and a watermark that is absent or
  accepted, the extractor issues \<open>min (T div B + 1) 10\<close> requests: one more than
  \<open>ceil(T/B)\<close> when \<open>B\<close> divides \<open>T\<close>, the last one answered by the empty
  page. When \<open>T < 10 B\<close> the batch is the frame of all \<open>T\<close> records, row \<open>i\<close>
  built from record \<open>i\<close>, and the cap warning is not logged.
\<close>

theorem pagination:
  "0 < BATCH_SIZE cfg \<Longrightarrow> (\<forall>ts. wm = Some ts \<longrightarrow> ts \<noteq> [] \<longrightarrow> fromisoformat py ts) \<Longrightarrow>
   length (filter is_http_get (snd (fetch_fire_data cfg py (serves src) wm)))
      = min (length src div nat (BATCH_SIZE cfg) + 1) 10
   \<and> (length src < 10 * nat (BATCH_SIZE cfg) \<longrightarrow>
        fst (fetch_fire_data cfg py (serves src) wm)
          = Some (if src = [] then empty_frame else DataFrame src)
        \<and> Warn_max_iterations \<notin> set (snd (fetch_fire_data cfg py (serves src) wm)))
   \<and> rows (DataFrame src) = map (record_row (columns (DataFrame src))) src"
proof -
  assume a: "0 < BATCH_SIZE cfg" "\<forall>ts. wm = Some ts \<longrightarrow> ts \<noteq> [] \<longrightarrow> fromisoformat py ts"
  from fetch_serves[OF a, of src] obtain wh where
    f: "fetch_fire_data cfg py (serves src) wm =
     (Some (if src = [] then empty_frame else DataFrame (take (max_iterations * nat (BATCH_SIZE cfg)) src)),
      (if truthy (API_APP_TOKEN cfg) then [] else [Warn_no_app_token])
      @ map (\<lambda>i. HttpGet \<lparr>offset = int i * BATCH_SIZE cfg, limit = BATCH_SIZE cfg, where_clause = wh\<rparr>)
          [0..<min (length src div nat (BATCH_SIZE cfg) + 1) max_iterations]
      @ (if max_iterations * nat (BATCH_SIZE cfg) \<le> length src then [Warn_max_iterations] else []))"
    by blast
  have m: "filter is_http_get (map (\<lambda>i. HttpGet (g i)) xs) = map (\<lambda>i. HttpGet (g i)) xs" for g and xs :: "nat list"
    by (induction xs) auto
  show ?thesis
    unfolding f by (auto simp: m max_iterations_def simp del: truthy.simps)
qed

text \<open>Pages of 2000, 2000 and 450 records at limit 2000: three requests, 4450 rows, no warning.\<close>

theorem pagination_witness:
  "0 < BATCH_SIZE (cfg_example 2000)
   \<and> length (filter is_http_get
        (snd (fetch_fire_data (cfg_example 2000) py_any (serves (incidents 4450)) None))) = 3
   \<and> fst (fetch_fire_data (cfg_example 2000) py_any (serves (incidents 4450)) None)
        = Some (DataFrame (incidents 4450))
   \<and> Warn_max_iterations \<notin> set (snd (fetch_fire_data (cfg_example 2000) py_any (serves (incidents 4450)) None))
   \<and> length (rows (DataFrame (incidents 4450))) = 4450"
  using pagination[of "cfg_example 2000" None py_any "incidents 4450"]
  by simp

text \<open>
  Four records at limit 2: two full pages and the empty one, three requests, while
  \<open>ceil(4/2) = 2\<close>.
\<close>

theorem pagination_counterexample:
  "\<not> length (filter is_http_get
        (snd (fetch_fire_data (cfg_example 2) py_any (serves (incidents 4)) None)))
      \<le> min ((length (incidents 4) + 2 - 1) div 2) 10"
  by code_simp

text \<open>
  Twenty-five records at limit 2: ten full pages, so the cap stops the loop with its
  warning after ten requests, and the batch holds the first twenty records.
\<close>

theorem page_cap_witness:
  "honours_limit (serves (incidents 25))
   \<and> length (filter is_http_get
        (snd (fetch_fire_data (cfg_example 2) py_any (serves (incidents 25)) None))) = 10
   \<and> Warn_max_iterations \<in> set (snd (fetch_fire_data (cfg_example 2) py_any (serves (incidents 25)) None))
   \<and> fst (fetch_fire_data (cfg_example 2) py_any (serves (incidents 25)) None)
        = Some (DataFrame (take 20 (incidents 25)))
   \<and> length (rows (DataFrame (take 20 (incidents 25)))) = 20
   \<and> length (rows (DataFrame (take 20 (incidents 25)))) \<le> 10 * nat (BATCH_SIZE (cfg_example 2))
   \<and> length (filter is_http_get
        (snd (fetch_fire_data (cfg_example 2) py_any (serves (incidents 25)) None))) \<le> 10"
proof -
  have h: "honours_limit (serves (incidents 25))" by (rule honours_limit_serves)
  have m: "filter is_http_get (map (\<lambda>i. HttpGet (g i)) xs) = map (\<lambda>i. HttpGet (g i)) xs"
    for g and xs :: "nat list"
    by (induction xs) auto
  from fetch_serves[of "cfg_example 2" None py_any "incidents 25"]
  have f: "fst (fetch_fire_data (cfg_example 2) py_any (serves (incidents 25)) None)
             = Some (DataFrame (take 20 (incidents 25)))"
    and n: "length (filter is_http_get
        (snd (fetch_fire_data (cfg_example 2) py_any (serves (incidents 25)) None))) = 10"
    and w: "Warn_max_iterations \<in> set (snd (fetch_fire_data (cfg_example 2) py_any (serves (incidents 25)) None))"
    by (auto simp: m max_iterations_def cfg_example_def)
  have l: "length (rows (DataFrame (take 20 (incidents 25)))) = 20" by simp
  from page_cap[of "cfg_example 2" py_any "serves (incidents 25)" None] h f n w l show ?thesis
    by blast
qed

text \<open>
  A source that answers every request with the same five records, at limit 2: every
  page is longer than the limit, so the loop runs to the cap and the batch holds 50
  rows, more than 10 times 2.
\<close>

theorem page_cap_counterexample:
  "length (filter is_http_get
      (snd (fetch_fire_data (cfg_example 2) py_any (serves_all (incidents 5)) None))) = 10
   \<and> (case fst (fetch_fire_data (cfg_example 2) py_any (serves_all (incidents 5)) None) of
         Some df \<Rightarrow> length (rows df) = 50 \<and> 10 * nat (BATCH_SIZE (cfg_example 2)) < length (rows df)
       | None \<Rightarrow> False)"
  by code_simp

section \<open>Properties of the upsert loader\<close>

lemma execute_pages_committed:
  "committed (snd (execute_pages tn cols uk ucols pages conn)) = committed conn"
  by (induction pages arbitrary: conn) (auto split: sum.splits)

lemma execute_values_committed:
  "execute_values conn tn cols uk ucols tuples n = (r, conn') \<Longrightarrow> committed conn' = committed conn"
  using execute_pages_committed[of tn cols uk ucols "chunks n tuples" conn]
  by (simp add: execute_values_def)

lemma upsert_data_unfold:
  "\<not> is_empty df \<Longrightarrow>
   \<exists>cols evs1 r conn1. committed conn1 = db \<and> Db_commit \<notin> set evs1 \<and> Db_rollback \<notin> set evs1 \<and>
      execute_values (raw_connection db) table_name cols unique_key
        (filter (\<lambda>col. col \<noteq> unique_key) cols) (rows df) 500 = (r, conn1) \<and>
      upsert_data db df table_name unique_key =
        (case r of None \<Rightarrow> (Inr (), working conn1, evs1 @ [Db_commit])
                 | Some e \<Rightarrow> (Inl e, db, evs1 @ [Db_rollback, Error_upsert]))"
proof -
  assume ne: "\<not> is_empty df"
  define dbc where "dbc = (case get_columns db table_name of Inr cs \<Rightarrow> cs | Inl e \<Rightarrow> columns df)"
  define evs0 where "evs0 = (case get_columns db table_name of Inr cs \<Rightarrow> []
                               | Inl e \<Rightarrow> [Error_inspect_columns])"
  define cols where "cols = filter (\<lambda>col. col \<in> set dbc) (columns df)"
  define evs1 where "evs1 = evs0 @ (if filter (\<lambda>col. col \<notin> set dbc) (columns df) \<noteq> []
      then [Warn_columns_dropped (filter (\<lambda>col. col \<notin> set dbc) (columns df))] else [])"
  obtain r conn1 where ev: "execute_values (raw_connection db) table_name cols unique_key
        (filter (\<lambda>col. col \<noteq> unique_key) cols) (rows df) 500 = (r, conn1)"
    by (cases "execute_values (raw_connection db) table_name cols unique_key
        (filter (\<lambda>col. col \<noteq> unique_key) cols) (rows df) 500") blast
  from execute_values_committed[OF ev] have c: "committed conn1 = db"
    by (simp add: raw_connection_def)
  have e1: "Db_commit \<notin> set evs1 \<and> Db_rollback \<notin> set evs1"
    by (auto simp: evs1_def evs0_def split: sum.splits)
  have "upsert_data db df table_name unique_key =
        (case r of None \<Rightarrow> (Inr (), working conn1, evs1 @ [Db_commit])
                 | Some e \<Rightarrow> (Inl e, db, evs1 @ [Db_rollback, Error_upsert]))"
    using ne ev c
    by (auto simp: upsert_data_def Let_def replace_na_def cols_def dbc_def evs1_def evs0_def
          commit_def rollback_def split: sum.splits option.splits)
  with ev c e1 show ?thesis by blast
qed

lemma upsert_data_error:
  "fst (upsert_data db df table_name unique_key) = Inl e \<Longrightarrow>
     fst (snd (upsert_data db df table_name unique_key)) = db
     \<and> Db_rollback \<in> set (snd (snd (upsert_data db df table_name unique_key)))
     \<and> Db_commit \<notin> set (snd (snd (upsert_data db df table_name unique_key)))"
proof (cases "is_empty df")
  case True
  assume "fst (upsert_data db df table_name unique_key) = Inl e"
  with True show ?thesis by (simp add: upsert_data_def)
next
  case False
  assume a: "fst (upsert_data db df table_name unique_key) = Inl e"
  from upsert_data_unfold[OF False, of db table_name unique_key] obtain cols evs1 r conn1 where
    u: "committed conn1 = db \<and> Db_commit \<notin> set evs1 \<and> Db_rollback \<notin> set evs1 \<and>
      execute_values (raw_connection db) table_name cols unique_key
        (filter (\<lambda>col. col \<noteq> unique_key) cols) (rows df) 500 = (r, conn1) \<and>
      upsert_data db df table_name unique_key =
        (case r of None \<Rightarrow> (Inr (), working conn1, evs1 @ [Db_commit])
                 | Some e \<Rightarrow> (Inl e, db, evs1 @ [Db_rollback, Error_upsert]))"
    by blast
  with a show ?thesis by (cases r) auto
qed

lemma load_propagates:
  "\<not> is_empty df \<Longrightarrow> ''incident_number'' \<in> set (columns df) \<Longrightarrow>
   create_staging_table db df (STAGING_TABLE_NAME cfg) = (Inr u, db1, evs1) \<Longrightarrow>
   upsert_data db1 df (STAGING_TABLE_NAME cfg) ''incident_number'' = (Inl e, db2, evs2) \<Longrightarrow>
   load_data_to_staging cfg db df = (Inl e, db1, evs1 @ evs2 @ [Error_load])"
  using upsert_data_error[of db1 df "STAGING_TABLE_NAME cfg" "''incident_number''" e]
  by (simp add: load_data_to_staging_def)

lemma chunks_nonempty: "0 < n \<Longrightarrow> xs \<noteq> [] \<Longrightarrow> chunks n xs = take n xs # chunks n (drop n xs)"
  by (subst chunks.simps) simp

lemma execute_upsert_width:
  "\<not> list_all (\<lambda>r. length r = length cols) tuples \<Longrightarrow>
   execute_upsert tn cols uk ucols tuples db = Inl DatabaseError"
  by (auto simp: execute_upsert_def split: option.splits)

lemma execute_upsert_error: "execute_upsert tn cols uk ucols tuples db = Inl e \<Longrightarrow> e = DatabaseError"
  by (auto simp: execute_upsert_def split: option.splits if_splits)

text \<open>
  Every non-empty well-formed batch with a column that the table does not have makes
  the upsert fail: the rows keep all their cells while the column list is shorter.
\<close>

lemma upsert_data_dropped_fails:
  assumes "\<not> is_empty df" and "wf_frame df" and "db tn = Some t"
    and "\<exists>c \<in> set (columns df). c \<notin> set (tcols t)"
  shows "fst (upsert_data db df tn uk) = Inl DatabaseError \<and> fst (snd (upsert_data db df tn uk)) = db"
proof -
  let ?cols = "filter (\<lambda>col. col \<in> set (tcols t)) (columns df)"
  from assms(4) have "length ?cols < length (columns df)"
    by (metis (mono_tags, lifting) length_filter_less)
  moreover from assms(1) obtain r rs where rows: "rows df = r # rs"
    by (cases "rows df") (auto simp: is_empty_def)
  moreover from assms(2) rows have "length r = length (columns df)"
    by (simp add: wf_frame_def)
  ultimately have "\<not> list_all (\<lambda>r. length r = length ?cols) (take 500 (rows df))"
    by simp
  then have "execute_upsert tn ?cols uk ucols (take 500 (rows df)) db = Inl DatabaseError" for ucols
    by (rule execute_upsert_width)
  then have "fst (upsert_data db df tn uk) = Inl DatabaseError"
    using assms(1,3) rows
    by (simp add: upsert_data_def Let_def get_columns_def execute_values_def chunks_nonempty
          raw_connection_def replace_na_def)
  with upsert_data_error[of db df tn uk DatabaseError] show ?thesis by simp
qed

text \<open>
  Claim C1 (the code departs from it). The table has the columns \<open>incident_number\<close>
  and \<open>address\<close>; the batch has one row and the further column \<open>new_col\<close>. The
  column is dropped from the column list with its warning, the row still carries
  three values for two columns, the statement is refused, and the exception is raised
  after the rollback: nothing is written.
\<close>

theorem upsert_extra_column_fails:
  "upsert_data db_example frame_extra_column stg ''incident_number''
     = (Inl DatabaseError, db_example, [Warn_columns_dropped [''new_col''], Db_rollback, Error_upsert])"
  by (simp add: upsert_data_def Let_def get_columns_def execute_values_def chunks_nonempty
        raw_connection_def replace_na_def db_example_def table_example_def frame_extra_column_def
        is_empty_def select_columns_def execute_upsert_def rollback_def)

text \<open>
  Claim C8, as amended. For an empty batch \<open>load_data_to_staging\<close> does nothing at
  all: it returns before \<open>create_staging_table\<close>, so the load step creates no table.
  \<open>create_staging_table\<close> itself, called with an empty batch, creates the table
  with the single column \<open>incident_number\<close> as primary key when the table does not
  exist, and leaves an existing table as it is.
\<close>

theorem empty_batch_load:
  "is_empty df \<Longrightarrow>
     load_data_to_staging cfg db df = (Inr (), db, [])
     \<and> create_staging_table db df table_name =
         (Inr (),
          (case db table_name of
             Some t \<Rightarrow> db
           | None \<Rightarrow> db(table_name \<mapsto>
               \<lparr>tcols = [''incident_number''], tpk = Some ''incident_number'', trows = []\<rparr>)),
          [Warn_cannot_infer_schema])"
  by (simp add: load_data_to_staging_def create_staging_table_def execute_create_def
           split: option.splits)

theorem empty_batch_load_witness:
  "is_empty empty_frame
   \<and> load_data_to_staging (cfg_example 2000) Map.empty empty_frame = (Inr (), Map.empty, [])
   \<and> create_staging_table Map.empty empty_frame stg =
         (Inr (),
          Map.empty(stg \<mapsto> \<lparr>tcols = [''incident_number''], tpk = Some ''incident_number'', trows = []\<rparr>),
          [Warn_cannot_infer_schema])"
  using empty_batch_load[of empty_frame "cfg_example 2000" Map.empty stg]
  by (simp add: is_empty_def empty_frame_def)

text \<open>
  On a warehouse without the table, the load step with the empty batch returns and the
  table still does not exist.
\<close>

theorem empty_batch_load_counterexample:
  "fst (load_data_to_staging (cfg_example 2000) Map.empty empty_frame) = Inr ()
   \<and> fst (snd (load_data_to_staging (cfg_example 2000) Map.empty empty_frame))
        (STAGING_TABLE_NAME (cfg_example 2000)) = None"
  by (simp add: load_data_to_staging_def is_empty_def empty_frame_def)

section \<open>Properties of duplicate resolution\<close>

lemma keep_last_subset: "set (keep_last key xs) \<subseteq> set xs"
  by (induction xs) auto

lemma keep_last_keys: "key ` set (keep_last key xs) = key ` set xs"
  by (induction xs) auto

lemma keep_last_distinct: "distinct (map key (keep_last key xs))"
proof (induction xs)
  case Nil
  show ?case by simp
next
  case (Cons x xs)
  have "key x \<notin> key ` set xs \<Longrightarrow> key x \<notin> key ` set (keep_last key xs)"
    by (simp add: keep_last_keys)
  with Cons show ?case by auto
qed


lemma keep_first_subset: "set (keep_first key seen xs) \<subseteq> set xs"
  by (induction xs arbitrary: seen) auto

lemma keep_first_keys: "key ` set (keep_first key seen xs) = key ` set xs - set seen"
  by (induction xs arbitrary: seen) auto

lemma keep_first_distinct: "distinct (map key (keep_first key seen xs))"
proof (induction xs arbitrary: seen)
  case Nil
  show ?case by simp
next
  case (Cons x xs)
  have "key x \<notin> key ` set (keep_first key (key x # seen) xs)"
    by (simp add: keep_first_keys)
  with Cons show ?case by auto
qed


lemma distinct_count_list: "distinct ks = (\<forall>k \<in> set ks. count_list ks k \<le> 1)"
proof (induction ks)
  case Nil
  show ?case by simp
next
  case (Cons x xs)
  show ?case
  proof (cases "x \<in> set xs")
    case True
    then have "0 < count_list xs x" using count_list_0_iff[of xs x] by simp
    with True show ?thesis by auto
  next
    case False
    with Cons show ?thesis by auto
  qed
qed

lemma no_duplicates_distinct:
  "(filter (\<lambda>k. 1 < count_list ks k) ks = []) = distinct ks"
  by (auto simp: distinct_count_list filter_empty_conv not_less)




lemma dq_result:
  "fst (perform_data_quality_checks df) =
     (if is_empty df then Inr df
      else if ''incident_number'' \<notin> set (columns df) then Inl ValueError
      else if distinct (column df ''incident_number'') then Inr df
      else if INCREMENTAL_COLUMN \<in> set (columns df) then
        (if mixed_types (column df INCREMENTAL_COLUMN) then Inl TypeError
         else Inr (df\<lparr>rows := keep_last (key_of df) (sort_key (stamp_of df) (rows df))\<rparr>))
      else Inr (df\<lparr>rows := keep_first (key_of df) [] (rows df)\<rparr>))"
proof -
  have k: "key_of df = (\<lambda>r. cell_at r (index_of ''incident_number'' (columns df)))"
    and t: "stamp_of df = (\<lambda>r. cell_key (cell_at r (index_of INCREMENTAL_COLUMN (columns df))))"
    by (auto simp: key_of_def stamp_of_def)
  show ?thesis
    by (simp add: perform_data_quality_checks_def Let_def no_duplicates_distinct[unfolded One_nat_def]
          sort_values_def drop_duplicates_def mixed_types_def k t)
qed

lemma column_key_of: "column df ''incident_number'' = map (key_of df) (rows df)"
  by (simp add: column_def key_of_def)


lemma dq_keys:
  assumes "''incident_number'' \<in> set (columns df)"
    and "fst (perform_data_quality_checks df) = Inr out"
  shows "columns out = columns df \<and> key_of df ` set (rows out) = key_of df ` set (rows df)
         \<and> distinct (map (key_of df) (rows out)) \<and> set (rows out) \<subseteq> set (rows df)"
proof (cases "is_empty df")
  case True
  with assms(1) have "rows df = []" by (auto simp: is_empty_def)
  moreover from True assms(2) have "out = df" by (simp add: dq_result)
  ultimately show ?thesis by simp
next
  case False
  with assms have "(out = df \<and> distinct (map (key_of df) (rows df)))
      \<or> out = df\<lparr>rows := keep_last (key_of df) (sort_key (stamp_of df) (rows df))\<rparr>
      \<or> out = df\<lparr>rows := keep_first (key_of df) [] (rows df)\<rparr>"
    by (simp add: dq_result column_key_of split: if_splits)
  then show ?thesis
    using keep_last_keys[of "key_of df" "sort_key (stamp_of df) (rows df)"]
          keep_first_keys[of "key_of df" "[]" "rows df"]
          keep_last_subset[of "key_of df" "sort_key (stamp_of df) (rows df)"]
          keep_first_subset[of "key_of df" "[]" "rows df"]
    by (elim disjE conjE) (simp_all add: keep_last_distinct keep_first_distinct)
qed




section \<open>Properties of the type conversion\<close>


lemma index_of_neq: "c \<in> set cs \<Longrightarrow> c' \<noteq> c \<Longrightarrow> index_of c' cs \<noteq> index_of c cs"
  by (induction cs) auto

lemma set_column_columns: "set_column c vs df = Inr df' \<Longrightarrow> columns df' = columns df"
  by (auto simp: set_column_def split: if_splits)

lemma set_column_length: "set_column c vs df = Inr df' \<Longrightarrow> length (rows df') = length (rows df)"
  by (auto simp: set_column_def split: if_splits)

lemma update_rows_other:
  "length rs = length vs \<Longrightarrow> j \<noteq> i \<Longrightarrow>
   map (\<lambda>r. cell_at r j) (map (\<lambda>(r, v). r[i := v]) (zip rs vs)) = map (\<lambda>r. cell_at r j) rs"
  by (induction rs vs rule: list_induct2) (auto simp: cell_at_def)


lemma update_rows_width:
  "length rs = length vs \<Longrightarrow> \<forall>r \<in> set rs. length r = n \<Longrightarrow>
   \<forall>r \<in> set (map (\<lambda>(r, v). r[i := v]) (zip rs vs)). length r = n"
  by (induction rs vs rule: list_induct2) auto

lemma set_column_wf: "set_column c vs df = Inr df' \<Longrightarrow> wf_frame df \<Longrightarrow> wf_frame df'"
  using update_rows_width[of "rows df" vs "length (columns df)" "index_of c (columns df)"]
  by (auto simp: set_column_def wf_frame_def list_all_iff split: if_splits)

lemma set_column_other:
  assumes "set_column c vs df = Inr df'" and "c \<in> set (columns df)" and "c' \<noteq> c"
  shows "column df' c' = column df c'"
proof -
  from assms(2,3) have ne: "index_of c' (columns df) \<noteq> index_of c (columns df)"
    by (rule index_of_neq)
  from assms(1) have len: "length (rows df) = length vs"
    and df': "df' = df\<lparr>rows := map (\<lambda>(r, v). r[index_of c (columns df) := v]) (zip (rows df) vs)\<rparr>"
    by (auto simp: set_column_def split: if_splits)
  from update_rows_other[OF len ne] show ?thesis by (simp add: df' column_def)
qed


lemma set_column_Inr_length: "set_column c vs df = Inr df' \<Longrightarrow> length vs = length (rows df)"
  by (auto simp: set_column_def split: if_splits)

lemma set_column_ok: "length vs = length (rows df) \<Longrightarrow> \<exists>df'. set_column c vs df = Inr df'"
  by (simp add: set_column_def)

lemma length_cells_of [simp]: "length (cells_of (Datetime64 ts)) = length ts"
  by (simp add: cells_of_def)

text \<open>
  One round of the datetime loop. The second assignment cannot raise: the formatted
  column has the length of the one just assigned.
\<close>

lemma parse_round_cases:
  obtains (missing) "c \<notin> set (columns df)"
      "parse_datetime_column py c (df, evs) = (df, evs @ [Warn_datetime_column_missing c])"
    | (raised) "c \<in> set (columns df)"
      "parse_datetime_column py c (df, evs) = (df, evs @ [Warn_could_not_parse_datetime c])"
    | (objects) cs df1 where "c \<in> set (columns df)" "to_datetime py (column df c) = Inr (Objects cs)"
      "set_column c cs df = Inr df1"
      "parse_datetime_column py c (df, evs) = (df1, evs @ [Warn_could_not_parse_datetime c])"
    | (parsed) ts df1 df2 where "c \<in> set (columns df)"
      "to_datetime py (column df c) = Inr (Datetime64 ts)"
      "set_column c (cells_of (Datetime64 ts)) df = Inr df1"
      "set_column c (map format_datetime ts) df1 = Inr df2"
      "parse_datetime_column py c (df, evs) = (df2, evs)"
proof (cases "c \<in> set (columns df)")
  case False
  then show ?thesis using missing by (simp add: parse_datetime_column_def)
next
  case True
  show ?thesis
  proof (cases "to_datetime py (column df c)")
    case (Inl e)
    with True show ?thesis using raised by (simp add: parse_datetime_column_def)
  next
    case (Inr result)
    show ?thesis
    proof (cases "set_column c (cells_of result) df")
      case (Inl e)
      with True Inr show ?thesis using raised by (simp add: parse_datetime_column_def)
    next
      case first: (Inr df1)
      show ?thesis
      proof (cases result)
        case (Objects cs)
        with True Inr first show ?thesis using objects[of cs df1]
          by (simp add: parse_datetime_column_def cells_of_def dt_strftime_def)
      next
        case (Datetime64 ts)
        from first Datetime64 have "length ts = length (rows df)"
          using set_column_Inr_length[of c "cells_of (Datetime64 ts)" df df1] by simp
        moreover from first have "length (rows df1) = length (rows df)" by (rule set_column_length)
        ultimately have "length (map format_datetime ts) = length (rows df1)" by simp
        from set_column_ok[OF this, of c] obtain df2
          where second: "set_column c (map format_datetime ts) df1 = Inr df2" by blast
        with True Inr first Datetime64 show ?thesis using parsed[of ts df1 df2]
          by (simp add: parse_datetime_column_def dt_strftime_def)
      qed
    qed
  qed
qed

lemma parse_round_inv:
  assumes "parse_datetime_column py c (df, evs) = (df1, evs1)"
  shows "columns df1 = columns df" and "wf_frame df \<Longrightarrow> wf_frame df1"
    and "length (rows df1) = length (rows df)" and "set evs \<subseteq> set evs1"
    and "c' \<noteq> c \<Longrightarrow> column df1 c' = column df c'"
proof -
  have frame: "df1 = df \<or> (\<exists>vs. set_column c vs df = Inr df1)
      \<or> (\<exists>vs d vs'. set_column c vs df = Inr d \<and> set_column c vs' d = Inr df1)"
    using assms by (cases rule: parse_round_cases[of c df py evs]) auto
  show "columns df1 = columns df"
    using frame by (elim disjE exE conjE) (simp_all add: set_column_columns)
  show "wf_frame df \<Longrightarrow> wf_frame df1"
    using frame by (elim disjE exE conjE) (blast intro: set_column_wf)+
  show "length (rows df1) = length (rows df)"
    using frame by (elim disjE exE conjE) (simp_all add: set_column_length)
  show "set evs \<subseteq> set evs1"
    using assms by (cases rule: parse_round_cases[of c df py evs]) auto
  show "c' \<noteq> c \<Longrightarrow> column df1 c' = column df c'"
  proof -
    assume ne: "c' \<noteq> c"
    show ?thesis
    proof (cases rule: parse_round_cases[of c df py evs])
      case missing
      with assms show ?thesis by simp
    next
      case raised
      with assms show ?thesis by simp
    next
      case (objects cs d1)
      with assms have "df1 = d1" by simp
      with set_column_other[OF objects(3) objects(1) ne] show ?thesis by simp
    next
      case (parsed ts d1 d2)
      with assms have "df1 = d2" by simp
      moreover from parsed(1,3) have "c \<in> set (columns d1)" by (simp add: set_column_columns)
      ultimately show ?thesis
        using set_column_other[OF parsed(3) parsed(1) ne] set_column_other[OF parsed(4) _ ne]
        by simp
    qed
  qed
qed

lemma parse_fold_inv:
  "fold (parse_datetime_column py) cs (df, evs) = (df', evs') \<Longrightarrow>
     columns df' = columns df \<and> (wf_frame df \<longrightarrow> wf_frame df')
     \<and> length (rows df') = length (rows df) \<and> set evs \<subseteq> set evs'
     \<and> (\<forall>c'. c' \<notin> set cs \<longrightarrow> column df' c' = column df c')"
proof (induction cs arbitrary: df evs)
  case Nil
  then show ?case by simp
next
  case (Cons c cs)
  obtain df1 evs1 where r: "parse_datetime_column py c (df, evs) = (df1, evs1)"
    by (cases "parse_datetime_column py c (df, evs)") blast
  with Cons.prems have f: "fold (parse_datetime_column py) cs (df1, evs1) = (df', evs')" by simp
  from Cons.IH[OF f] parse_round_inv[OF r] show ?case by auto
qed


lemma convert_round_inv:
  assumes "convert_column py cd (df, evs) = (df1, evs1)"
  shows "columns df1 = columns df" and "wf_frame df \<Longrightarrow> wf_frame df1"
    and "length (rows df1) = length (rows df)"
  using assms
  by (auto simp: convert_column_def split: prod.splits if_splits sum.splits dtype.splits
           dest: set_column_columns set_column_wf set_column_length)

lemma convert_fold_inv:
  "fold (convert_column py) cds (df, evs) = (df', evs') \<Longrightarrow>
     columns df' = columns df \<and> (wf_frame df \<longrightarrow> wf_frame df')
     \<and> length (rows df') = length (rows df)"
proof (induction cds arbitrary: df evs)
  case Nil
  then show ?case by simp
next
  case (Cons cd cds)
  obtain df1 evs1 where r: "convert_column py cd (df, evs) = (df1, evs1)"
    by (cases "convert_column py cd (df, evs)") blast
  with Cons.prems have f: "fold (convert_column py) cds (df1, evs1) = (df', evs')" by simp
  from Cons.IH[OF f] convert_round_inv[OF r] show ?case by auto
qed

lemma convert_data_types_inv:
  "columns (fst (convert_data_types py df)) = columns df
   \<and> length (rows (fst (convert_data_types py df))) = length (rows df)
   \<and> (wf_frame df \<longrightarrow> wf_frame (fst (convert_data_types py df)))"
proof -
  obtain df0 evs0 where a: "fold (convert_column py) EXPECTED_DTYPES (df, []) = (df0, evs0)"
    by (cases "fold (convert_column py) EXPECTED_DTYPES (df, [])") blast
  obtain df1 evs1 where b: "fold (parse_datetime_column py) DATETIME_COLUMNS (df0, evs0) = (df1, evs1)"
    by (cases "fold (parse_datetime_column py) DATETIME_COLUMNS (df0, evs0)") blast
  from a b have "convert_data_types py df = (df1, evs1)" by (simp add: convert_data_types_def)
  with convert_fold_inv[OF a] parse_fold_inv[OF b] show ?thesis by simp
qed









section \<open>Which component logs what\<close>

lemma fetch_loop_events:
  "list_all extractor_event evs \<Longrightarrow>
   list_all extractor_event (snd (fetch_loop srv lmt wh ofs n all_data evs))"
proof (induction srv lmt wh ofs n all_data evs rule: fetch_loop.induct)
  case (1 srv lmt wh ofs n all_data evs)
  show ?case
  proof (cases "srv \<lparr>offset = ofs, limit = lmt, where_clause = wh\<rparr>")
    case (Inl e)
    with 1(2) show ?thesis by (subst fetch_loop.simps) (simp add: Let_def)
  next
    case (Inr batch)
    show ?thesis
    proof (cases "batch \<noteq> [] \<and> \<not> int (length batch) < lmt \<and> \<not> max_iterations \<le> n + 1")
      case True
      with Inr 1(2) 1(1)[OF refl refl Inr] have
        "list_all extractor_event (snd (fetch_loop srv lmt wh (ofs + lmt) (n + 1) (all_data @ batch)
            (evs @ [HttpGet \<lparr>offset = ofs, limit = lmt, where_clause = wh\<rparr>])))"
        by simp
      with True Inr show ?thesis
        by (subst fetch_loop.simps) (simp add: Let_def)
    next
      case False
      with Inr 1(2) show ?thesis
        by (subst fetch_loop.simps) (auto simp add: Let_def)
    qed
  qed
qed

lemma fetch_fire_data_events: "list_all extractor_event (snd (fetch_fire_data cfg py srv wm))"
proof (cases rule: fetch_fire_data_cases[of wm py cfg srv])
  case (invalid ts)
  then show ?thesis by (simp del: truthy.simps)
next
  case (failed wh evs)
  with fetch_loop_events[of "if truthy (API_APP_TOKEN cfg) then [] else [Warn_no_app_token]"
      srv "BATCH_SIZE cfg" wh 0 0 "[]"]
  show ?thesis by (simp del: truthy.simps)
next
  case (fetched wh all_data evs)
  with fetch_loop_events[of "if truthy (API_APP_TOKEN cfg) then [] else [Warn_no_app_token]"
      srv "BATCH_SIZE cfg" wh 0 0 "[]"]
  show ?thesis by (simp del: truthy.simps)
qed

lemma dedup_names_inv:
  "list_all transform_event (snd (dedup_names seen xs)) \<and> length (fst (dedup_names seen xs)) = length xs"
proof (induction xs arbitrary: seen)
  case Nil
  show ?case by simp
next
  case (Cons p rest)
  obtain orig col where p: "p = (orig, col)" by (cases p)
  show ?case
  proof (cases "seen col")
    case None
    obtain fs evs where r: "dedup_names (seen(col \<mapsto> 0)) rest = (fs, evs)"
      by (cases "dedup_names (seen(col \<mapsto> 0)) rest")
    from Cons.IH[of "seen(col \<mapsto> 0)"] have ih: "list_all transform_event evs \<and> length fs = length rest"
      unfolding r by simp
    have "dedup_names seen (p # rest) = (col # fs, evs)"
      unfolding p by (simp only: dedup_names.simps None option.case r prod.case Let_def)
    with ih show ?thesis by simp
  next
    case (Some k)
    obtain fs evs where r: "dedup_names (seen(col \<mapsto> k + 1)) rest = (fs, evs)"
      by (cases "dedup_names (seen(col \<mapsto> k + 1)) rest")
    from Cons.IH[of "seen(col \<mapsto> k + 1)"] have ih: "list_all transform_event evs \<and> length fs = length rest"
      unfolding r by simp
    have "dedup_names seen (p # rest) =
            ((col @ ''_'' @ digits (k + 1)) # fs, Warn_duplicate_column orig (col @ ''_'' @ digits (k + 1)) # evs)"
      unfolding p by (simp only: dedup_names.simps Some option.case r prod.case Let_def)
    with ih show ?thesis by simp
  qed
qed


lemma clean_column_names_inv:
  "list_all transform_event (snd (clean_column_names df))
   \<and> length (columns (fst (clean_column_names df))) = length (columns df)
   \<and> rows (fst (clean_column_names df)) = rows df"
  using dedup_names_inv[of Map.empty "map (\<lambda>c. (c, clean_name c)) (columns df)"]
  by (auto simp: clean_column_names_def split: prod.splits)

lemma convert_fold_tevents:
  "list_all transform_event evs \<Longrightarrow>
   list_all transform_event (snd (fold (convert_column py) cds (df, evs)))"
proof (induction cds arbitrary: df evs)
  case Nil
  then show ?case by simp
next
  case (Cons cd cds)
  obtain df1 evs1 where r: "convert_column py cd (df, evs) = (df1, evs1)"
    by (cases "convert_column py cd (df, evs)") blast
  with Cons.prems have "list_all transform_event evs1"
    by (auto simp: convert_column_def split: prod.splits if_splits sum.splits dtype.splits)
  from Cons.IH[OF this, of df1] r show ?case by simp
qed

lemma parse_fold_tevents:
  "list_all transform_event evs \<Longrightarrow>
   list_all transform_event (snd (fold (parse_datetime_column py) cs (df, evs)))"
proof (induction cs arbitrary: df evs)
  case Nil
  then show ?case by simp
next
  case (Cons c cs)
  obtain df1 evs1 where r: "parse_datetime_column py c (df, evs) = (df1, evs1)"
    by (cases "parse_datetime_column py c (df, evs)") blast
  with Cons.prems have "list_all transform_event evs1"
    by (cases rule: parse_round_cases[of c df py evs]) auto
  from Cons.IH[OF this, of df1] r show ?case by simp
qed

lemma convert_data_types_events: "list_all transform_event (snd (convert_data_types py df))"
proof -
  obtain df0 evs0 where a: "fold (convert_column py) EXPECTED_DTYPES (df, []) = (df0, evs0)"
    by (cases "fold (convert_column py) EXPECTED_DTYPES (df, [])") blast
  with convert_fold_tevents[of "[]" py EXPECTED_DTYPES df] have "list_all transform_event evs0"
    by simp
  from parse_fold_tevents[OF this, of py DATETIME_COLUMNS df0] a show ?thesis
    by (simp add: convert_data_types_def)
qed

lemma dq_events: "list_all transform_event (snd (perform_data_quality_checks df))"
  by (simp add: perform_data_quality_checks_def Let_def split: sum.splits)

lemma dq_nonempty:
  assumes "fst (perform_data_quality_checks df) = Inr out" and "\<not> is_empty df"
  shows "\<not> is_empty out"
proof -
  from assms have k: "''incident_number'' \<in> set (columns df)"
    by (auto simp: dq_result split: if_splits)
  from dq_keys[OF k assms(1)]
  have "columns out = columns df" "key_of df ` set (rows out) = key_of df ` set (rows df)"
    by blast+
  with assms(2) show ?thesis by (auto simp: is_empty_def)
qed

lemma transform_data_inv:
  "list_all transform_event (snd (transform_data py df))
   \<and> (\<forall>out. fst (transform_data py df) = Inr out \<longrightarrow> \<not> is_empty df \<longrightarrow> \<not> is_empty out)"
proof (cases "is_empty df")
  case True
  then show ?thesis by (simp add: transform_data_def)
next
  case False
  obtain df1 evs1 where a: "clean_column_names df = (df1, evs1)"
    by (cases "clean_column_names df") blast
  obtain df2 evs2 where b: "convert_data_types py df1 = (df2, evs2)"
    by (cases "convert_data_types py df1") blast
  obtain res evs3 where c: "perform_data_quality_checks df2 = (res, evs3)"
    by (cases "perform_data_quality_checks df2") blast
  have t: "transform_data py df = (res, evs1 @ evs2 @ evs3)"
    using False a b c by (simp add: transform_data_def)
  from clean_column_names_inv[of df] a False have n1: "\<not> is_empty df1" and e1: "list_all transform_event evs1"
    by (auto simp: is_empty_def)
  from convert_data_types_inv[of py df1] b n1 have n2: "\<not> is_empty df2"
    by (auto simp: is_empty_def)
  from convert_data_types_events[of py df1] b have e2: "list_all transform_event evs2" by simp
  from dq_events[of df2] c have e3: "list_all transform_event evs3" by simp
  from dq_nonempty[of df2] c n2 have "\<forall>out. res = Inr out \<longrightarrow> \<not> is_empty out" by simp
  with t e1 e2 e3 show ?thesis by simp
qed

lemma upsert_data_events: "list_all loader_event (snd (snd (upsert_data db df tn uk)))"
proof (cases "is_empty df")
  case True
  then show ?thesis by (simp add: upsert_data_def)
next
  case False
  then show ?thesis
    by (auto simp: upsert_data_def Let_def split: sum.splits prod.splits option.splits)
qed

lemma create_staging_table_events: "list_all loader_event (snd (snd (create_staging_table db df tn)))"
  by (auto simp: create_staging_table_def split: sum.splits prod.splits if_splits)

lemma load_events: "list_all loader_event (snd (snd (load_data_to_staging cfg db df)))"
proof -
  obtain r1 db1 evs1 where c: "create_staging_table db df (STAGING_TABLE_NAME cfg) = (r1, db1, evs1)"
    by (cases "create_staging_table db df (STAGING_TABLE_NAME cfg)") blast
  obtain r2 db2 evs2 where
    up: "upsert_data db1 df (STAGING_TABLE_NAME cfg) ''incident_number'' = (r2, db2, evs2)"
    by (cases "upsert_data db1 df (STAGING_TABLE_NAME cfg) ''incident_number''") blast
  from create_staging_table_events[of db df "STAGING_TABLE_NAME cfg"] c
  have e1: "list_all loader_event evs1" by simp
  from upsert_data_events[of db1 df "STAGING_TABLE_NAME cfg" "''incident_number''"] up
  have e2: "list_all loader_event evs2" by simp
  from c up e1 e2 show ?thesis
    by (auto simp: load_data_to_staging_def split: sum.splits)
qed

lemma upsert_data_success:
  "fst (upsert_data db df tn uk) = Inr u \<Longrightarrow> \<not> is_empty df \<Longrightarrow>
   \<exists>pre. snd (snd (upsert_data db df tn uk)) = pre @ [Db_commit]"
proof -
  assume a: "fst (upsert_data db df tn uk) = Inr u" and ne: "\<not> is_empty df"
  from upsert_data_unfold[OF ne, of db tn uk] obtain cols evs1 r conn1 where
    u: "committed conn1 = db \<and> Db_commit \<notin> set evs1 \<and> Db_rollback \<notin> set evs1 \<and>
      execute_values (raw_connection db) tn cols uk
        (filter (\<lambda>col. col \<noteq> uk) cols) (rows df) 500 = (r, conn1) \<and>
      upsert_data db df tn uk =
        (case r of None \<Rightarrow> (Inr (), working conn1, evs1 @ [Db_commit])
                 | Some e \<Rightarrow> (Inl e, db, evs1 @ [Db_rollback, Error_upsert]))"
    by blast
  with a show ?thesis by (cases r) auto
qed

lemma load_success:
  "load_data_to_staging cfg db df = (Inr u, db', evs) \<Longrightarrow> \<not> is_empty df \<Longrightarrow>
   \<exists>pre. evs = pre @ [Db_commit]"
proof -
  assume a: "load_data_to_staging cfg db df = (Inr u, db', evs)" and ne: "\<not> is_empty df"
  obtain r1 db1 evs1 where c: "create_staging_table db df (STAGING_TABLE_NAME cfg) = (r1, db1, evs1)"
    by (cases "create_staging_table db df (STAGING_TABLE_NAME cfg)") blast
  obtain r2 db2 evs2 where
    up: "upsert_data db1 df (STAGING_TABLE_NAME cfg) ''incident_number'' = (r2, db2, evs2)"
    by (cases "upsert_data db1 df (STAGING_TABLE_NAME cfg) ''incident_number''") blast
  from a ne c up have "r2 = Inr ()" "evs = evs1 @ evs2"
    by (auto simp: load_data_to_staging_def split: if_splits sum.splits)
  moreover from upsert_data_success[of db1 df "STAGING_TABLE_NAME cfg" "''incident_number''" "()"] up ne
    \<open>r2 = Inr ()\<close>
  obtain pre where "evs2 = pre @ [Db_commit]" by auto
  ultimately show ?thesis by auto
qed

section \<open>The runs of the orchestrator\<close>

lemma run_etl_cases:
  obtains
    (offline) "\<not> db_online w" "run_etl cfg py srv w = (1, w, [Critical_etl_failed])"
  | (extract_failed) wm ev0 ev1 where "db_online w"
      "get_last_run_timestamp (wm_file w) = (wm, ev0)"
      "fetch_fire_data cfg py srv wm = (None, ev1)"
      "run_etl cfg py srv w = (1, w, ev0 @ ev1 @ [Error_extraction_failed])"
  | (no_data) wm ev0 ev1 raw where "db_online w"
      "get_last_run_timestamp (wm_file w) = (wm, ev0)"
      "fetch_fire_data cfg py srv wm = (Some raw, ev1)" "is_empty raw"
      "run_etl cfg py srv w = (0, w, ev0 @ ev1)"
  | (latest_failed) wm ev0 ev1 raw e ev2 where "db_online w"
      "get_last_run_timestamp (wm_file w) = (wm, ev0)"
      "fetch_fire_data cfg py srv wm = (Some raw, ev1)" "\<not> is_empty raw"
      "latest_timestamp py raw = (Inl e, ev2)"
      "run_etl cfg py srv w = (1, w, ev0 @ ev1 @ ev2 @ [Critical_etl_failed])"
  | (transform_failed) wm ev0 ev1 raw latest ev2 e ev3 where "db_online w"
      "get_last_run_timestamp (wm_file w) = (wm, ev0)"
      "fetch_fire_data cfg py srv wm = (Some raw, ev1)" "\<not> is_empty raw"
      "latest_timestamp py raw = (Inr latest, ev2)"
      "transform_data py raw = (Inl e, ev3)"
      "run_etl cfg py srv w = (1, w, ev0 @ ev1 @ ev2 @ ev3 @ [Critical_etl_failed])"
  | (load_failed) wm ev0 ev1 raw latest ev2 tdf ev3 e db1 ev4 where "db_online w"
      "get_last_run_timestamp (wm_file w) = (wm, ev0)"
      "fetch_fire_data cfg py srv wm = (Some raw, ev1)" "\<not> is_empty raw"
      "latest_timestamp py raw = (Inr latest, ev2)"
      "transform_data py raw = (Inr tdf, ev3)" "\<not> is_empty tdf"
      "load_data_to_staging cfg (warehouse w) tdf = (Inl e, db1, ev4)"
      "run_etl cfg py srv w =
         (1, w\<lparr>warehouse := db1\<rparr>,
          ev0 @ ev1 @ ev2 @ ev3 @ [Call_load_data_to_staging] @ ev4 @ [Critical_etl_failed])"
  | (saved) wm ev0 ev1 raw ts ev2 tdf ev3 db1 ev4 w1 ev5 where "db_online w"
      "get_last_run_timestamp (wm_file w) = (wm, ev0)"
      "fetch_fire_data cfg py srv wm = (Some raw, ev1)" "\<not> is_empty raw"
      "latest_timestamp py raw = (Inr (Some ts), ev2)"
      "transform_data py raw = (Inr tdf, ev3)" "\<not> is_empty tdf"
      "load_data_to_staging cfg (warehouse w) tdf = (Inr (), db1, ev4)"
      "ts \<noteq> []" "wm \<noteq> Some ts"
      "save_last_run_timestamp (w\<lparr>warehouse := db1\<rparr>) ts = (w1, ev5)"
      "run_etl cfg py srv w =
         (0, w1, ev0 @ ev1 @ ev2 @ ev3 @ [Call_load_data_to_staging] @ ev4 @ ev5)"
  | (not_saved) wm ev0 ev1 raw latest ev2 tdf ev3 db1 ev4 tl where "db_online w"
      "get_last_run_timestamp (wm_file w) = (wm, ev0)"
      "fetch_fire_data cfg py srv wm = (Some raw, ev1)" "\<not> is_empty raw"
      "latest_timestamp py raw = (Inr latest, ev2)"
      "transform_data py raw = (Inr tdf, ev3)" "\<not> is_empty tdf"
      "load_data_to_staging cfg (warehouse w) tdf = (Inr (), db1, ev4)"
      "\<forall>ts. latest = Some ts \<longrightarrow> ts = [] \<or> wm = Some ts"
      "tl = [] \<or> tl = [Warn_watermark_not_updated]"
      "run_etl cfg py srv w =
         (0, w\<lparr>warehouse := db1\<rparr>,
          ev0 @ ev1 @ ev2 @ ev3 @ [Call_load_data_to_staging] @ ev4 @ tl)"
proof (cases "db_online w")
  case False
  then show ?thesis using offline by (simp add: run_etl_def)
next
  case on: True
  obtain wm ev0 where g: "get_last_run_timestamp (wm_file w) = (wm, ev0)"
    by (cases "get_last_run_timestamp (wm_file w)") blast
  obtain fr ev1 where f: "fetch_fire_data cfg py srv wm = (fr, ev1)"
    by (cases "fetch_fire_data cfg py srv wm") blast
  show ?thesis
  proof (cases fr)
    case None
    with on g f have "run_etl cfg py srv w = (1, w, ev0 @ ev1 @ [Error_extraction_failed])"
      by (simp add: run_etl_def)
    with on g f None show ?thesis using extract_failed by blast
  next
    case (Some raw)
    note f = f[unfolded Some]
    show ?thesis
    proof (cases "is_empty raw")
      case True
      with on g f have "run_etl cfg py srv w = (0, w, ev0 @ ev1)"
        by (simp add: run_etl_def)
      with on g f True show ?thesis using no_data by blast
    next
      case ne: False
      obtain lr ev2 where l: "latest_timestamp py raw = (lr, ev2)"
        by (cases "latest_timestamp py raw") blast
      show ?thesis
      proof (cases lr)
        case (Inl e)
        with on g f ne l
        have "run_etl cfg py srv w = (1, w, ev0 @ ev1 @ ev2 @ [Critical_etl_failed])"
          by (simp add: run_etl_def)
        with on g f ne l Inl show ?thesis using latest_failed by blast
      next
        case (Inr latest)
        note l = l[unfolded Inr]
        obtain tr ev3 where t: "transform_data py raw = (tr, ev3)"
          by (cases "transform_data py raw") blast
        show ?thesis
        proof (cases tr)
          case (Inl e)
          with on g f ne l t
          have "run_etl cfg py srv w = (1, w, ev0 @ ev1 @ ev2 @ ev3 @ [Critical_etl_failed])"
            by (simp add: run_etl_def)
          with on g f ne l t Inl show ?thesis using transform_failed by blast
        next
          case (Inr tdf)
          note t = t[unfolded Inr]
          from transform_data_inv[of py raw] t ne have nt: "\<not> is_empty tdf" by simp
          obtain ld db1 ev4 where ldd: "load_data_to_staging cfg (warehouse w) tdf = (ld, db1, ev4)"
            by (cases "load_data_to_staging cfg (warehouse w) tdf") blast
          show ?thesis
          proof (cases ld)
            case (Inl e)
            with on g f ne l t nt ldd
            have "run_etl cfg py srv w =
               (1, w\<lparr>warehouse := db1\<rparr>,
                ev0 @ ev1 @ ev2 @ ev3 @ [Call_load_data_to_staging] @ ev4 @ [Critical_etl_failed])"
              by (simp add: run_etl_def)
            with on g f ne l t nt ldd Inl show ?thesis using load_failed by blast
          next
            case (Inr u)
            then have ldd': "load_data_to_staging cfg (warehouse w) tdf = (Inr (), db1, ev4)"
              using ldd by simp
            show ?thesis
            proof (cases "\<exists>ts. latest = Some ts \<and> ts \<noteq> [] \<and> wm \<noteq> Some ts")
              case True
              then obtain ts where ts: "latest = Some ts" "ts \<noteq> []" "wm \<noteq> Some ts" by blast
              obtain w1 ev5 where s: "save_last_run_timestamp (w\<lparr>warehouse := db1\<rparr>) ts = (w1, ev5)"
                by (cases "save_last_run_timestamp (w\<lparr>warehouse := db1\<rparr>) ts") blast
              from on g f ne l t nt ldd' ts s
              have "run_etl cfg py srv w =
                 (0, w1, ev0 @ ev1 @ ev2 @ ev3 @ [Call_load_data_to_staging] @ ev4 @ ev5)"
                by (simp add: run_etl_def)
              with on g f ne l[unfolded ts(1)] t nt ldd' ts s show ?thesis using saved by blast
            next
              case False
              then have nf: "\<forall>ts. latest = Some ts \<longrightarrow> ts = [] \<or> wm = Some ts" by blast
              define tl where "tl = (case latest of None \<Rightarrow> [Warn_watermark_not_updated]
                  | Some ts \<Rightarrow> if ts = [] then [Warn_watermark_not_updated] else [])"
              have tl: "tl = [] \<or> tl = [Warn_watermark_not_updated]"
                by (auto simp: tl_def split: option.splits)
              from on g f ne l t nt ldd' nf
              have "run_etl cfg py srv w =
                 (0, w\<lparr>warehouse := db1\<rparr>,
                  ev0 @ ev1 @ ev2 @ ev3 @ [Call_load_data_to_staging] @ ev4 @ tl)"
                by (auto simp: run_etl_def tl_def split: option.splits)
              with on g f ne l t nt ldd' nf tl show ?thesis using not_saved by blast
            qed
          qed
        qed
      qed
    qed
  qed
qed

lemma not_write:
  "extractor_event e \<Longrightarrow> \<not> is_write e"
  "transform_event e \<Longrightarrow> \<not> is_write e"
  "loader_event e \<Longrightarrow> \<not> is_write e"
  by (cases e; simp)+

lemma not_http_get:
  "transform_event e \<Longrightarrow> \<not> is_http_get e"
  "loader_event e \<Longrightarrow> \<not> is_http_get e"
  by (cases e; simp)+

lemma get_last_run_timestamp_events:
  "snd (get_last_run_timestamp f) = [] \<or> snd (get_last_run_timestamp f) = [Error_reading_watermark]"
  by (simp add: get_last_run_timestamp_def split: file_state.splits)

lemma latest_timestamp_events:
  "snd (latest_timestamp py raw) = [] \<or> snd (latest_timestamp py raw) = [Warn_no_latest_timestamp]
   \<or> snd (latest_timestamp py raw) = [Warn_incremental_column_missing]"
  by (simp add: latest_timestamp_def split: sum.splits option.splits)

text \<open>
  Claim C6. A watermark that is present and that \<open>fromisoformat\<close> refuses makes
  \<open>fetch_fire_data\<close> return the failure value with the error logged and no request
  issued. A run that reads such a watermark from the state file exits with status 1
  and leaves the world as it was: no request, no call of the loader, no write of the
  state file.
\<close>

theorem invalid_watermark:
  assumes "ts \<noteq> []" and "\<not> fromisoformat py ts"
  shows "fetch_fire_data cfg py srv (Some ts)
           = (None, (if truthy (API_APP_TOKEN cfg) then [] else [Warn_no_app_token])
                      @ [Error_invalid_last_run_timestamp ts])
         \<and> (\<forall>s. wm_file w = Contents s \<and> strip s = ts \<longrightarrow>
               fst (run_etl cfg py srv w) = 1
               \<and> fst (snd (run_etl cfg py srv w)) = w
               \<and> filter is_http_get (snd (snd (run_etl cfg py srv w))) = []
               \<and> filter is_write (snd (snd (run_etl cfg py srv w))) = []
               \<and> Call_load_data_to_staging \<notin> set (snd (snd (run_etl cfg py srv w))))"
proof -
  have f: "fetch_fire_data cfg py srv (Some ts)
           = (None, (if truthy (API_APP_TOKEN cfg) then [] else [Warn_no_app_token])
                      @ [Error_invalid_last_run_timestamp ts])"
    using assms by (simp add: fetch_fire_data_def Let_def del: truthy.simps)
  have "fst (run_etl cfg py srv w) = 1
               \<and> fst (snd (run_etl cfg py srv w)) = w
               \<and> filter is_http_get (snd (snd (run_etl cfg py srv w))) = []
               \<and> filter is_write (snd (snd (run_etl cfg py srv w))) = []
               \<and> Call_load_data_to_staging \<notin> set (snd (snd (run_etl cfg py srv w)))"
    if "wm_file w = Contents s \<and> strip s = ts" for s
  proof -
    from that assms(1) have g: "get_last_run_timestamp (wm_file w) = (Some ts, [])"
      by (simp add: get_last_run_timestamp_def)
    show ?thesis
      by (simp add: run_etl_def g f del: truthy.simps)
  qed
  with f show ?thesis by blast
qed

theorem invalid_watermark_witness:
  "strip ''yesterday '' \<noteq> [] \<and> \<not> fromisoformat py_iso (strip ''yesterday '')
   \<and> fst (fetch_fire_data (cfg_example 2000) py_iso (serves (incidents 3)) (Some (strip ''yesterday ''))) = None
   \<and> fst (run_etl (cfg_example 2000) py_iso (serves (incidents 3))
            (world_example (Contents ''yesterday '') db_example)) = 1
   \<and> fst (snd (run_etl (cfg_example 2000) py_iso (serves (incidents 3))
            (world_example (Contents ''yesterday '') db_example)))
        = world_example (Contents ''yesterday '') db_example
   \<and> filter is_http_get (snd (snd (run_etl (cfg_example 2000) py_iso (serves (incidents 3))
            (world_example (Contents ''yesterday '') db_example)))) = []"
proof -
  have s: "strip ''yesterday '' = ''yesterday''" by code_simp
  have a: "strip ''yesterday '' \<noteq> []" by (simp add: s)
  have b: "\<not> fromisoformat py_iso (strip ''yesterday '')"
    by (simp add: s py_iso_def parse_iso_def)
  have c: "wm_file (world_example (Contents ''yesterday '') db_example) = Contents ''yesterday ''
           \<and> strip ''yesterday '' = strip ''yesterday ''"
    by (simp add: world_example_def)
  from invalid_watermark[OF a b, of "cfg_example 2000" "serves (incidents 3)"
         "world_example (Contents ''yesterday '') db_example"] a b c
  show ?thesis by (metis fst_conv)
qed

lemma distinct_filter_one: "distinct xs \<Longrightarrow> x \<in> set xs \<Longrightarrow> length (filter (\<lambda>k. k = x) xs) = 1"
  by (induction xs) (auto simp: filter_empty_conv)

lemma dq_missing_keys:
  assumes "\<not> is_empty df" and "''incident_number'' \<in> set (columns df)"
    and "Null \<in> set (column df ''incident_number'')"
  shows "Warn_dq_missing_pk (length (filter (\<lambda>k. k = Null) (column df ''incident_number'')))
           \<in> set (snd (perform_data_quality_checks df))"
    and "fst (perform_data_quality_checks df) = Inr out \<Longrightarrow>
           columns out = columns df \<and> set (rows out) \<subseteq> set (rows df)
           \<and> key_of df ` set (rows out) = key_of df ` set (rows df)
           \<and> Null \<in> set (column out ''incident_number'')
           \<and> length (filter (\<lambda>k. k = Null) (column out ''incident_number'')) = 1"
proof -
  from assms(3) have "filter (\<lambda>k. k = Null) (column df ''incident_number'') \<noteq> []"
    by (simp add: filter_empty_conv)
  then have "0 < length (filter (\<lambda>k. k = Null) (column df ''incident_number''))" by simp
  with assms(1,2)
  show "Warn_dq_missing_pk (length (filter (\<lambda>k. k = Null) (column df ''incident_number'')))
           \<in> set (snd (perform_data_quality_checks df))"
    by (simp add: perform_data_quality_checks_def Let_def split: sum.splits)
next
  assume out: "fst (perform_data_quality_checks df) = Inr out"
  from dq_keys[OF assms(2) out]
  have c: "columns out = columns df" and k: "key_of df ` set (rows out) = key_of df ` set (rows df)"
    and d: "distinct (map (key_of df) (rows out))" and s: "set (rows out) \<subseteq> set (rows df)"
    by blast+
  from c have col: "column out ''incident_number'' = map (key_of df) (rows out)"
    by (simp add: column_def key_of_def)
  from assms(3) have "Null \<in> key_of df ` set (rows df)" by (simp add: column_key_of)
  with k have "Null \<in> key_of df ` set (rows out)" by simp
  with col have n: "Null \<in> set (column out ''incident_number'')" by simp
  from d col have "distinct (column out ''incident_number'')" by simp
  from distinct_filter_one[OF this n]
  have "length (filter (\<lambda>k. k = Null) (column out ''incident_number'')) = 1" .
  with c s k n
  show "columns out = columns df \<and> set (rows out) \<subseteq> set (rows df)
           \<and> key_of df ` set (rows out) = key_of df ` set (rows df)
           \<and> Null \<in> set (column out ''incident_number'')
           \<and> length (filter (\<lambda>k. k = Null) (column out ''incident_number'')) = 1"
    by (intro conjI) assumption+
qed

lemma dq_returns:
  assumes "\<not> is_empty df" and "''incident_number'' \<in> set (columns df)"
  shows "distinct (column df ''incident_number'') \<Longrightarrow> fst (perform_data_quality_checks df) = Inr df"
    and "(\<exists>out. fst (perform_data_quality_checks df) = Inr out)
         \<or> (\<not> distinct (column df ''incident_number'') \<and> INCREMENTAL_COLUMN \<in> set (columns df)
             \<and> mixed_types (column df INCREMENTAL_COLUMN)
             \<and> fst (perform_data_quality_checks df) = Inl TypeError)"
  using assms by (simp_all add: dq_result)

lemma run_calls_loader:
  assumes "db_online w"
    and "fst (fetch_fire_data cfg py srv (fst (get_last_run_timestamp (wm_file w)))) = Some raw"
    and "\<not> is_empty raw" and "fst (latest_timestamp py raw) = Inr latest"
    and "fst (transform_data py raw) = Inr tdf"
  shows "Call_load_data_to_staging \<in> set (snd (snd (run_etl cfg py srv w)))"
  using assms by (cases rule: run_etl_cases[of w cfg py srv]) auto

text \<open>
  Claim C3, as amended. For a non-empty batch whose key column has a missing value, the
  gate logs the failed check with the number of such rows and raises nothing for it:
  it returns unless duplicate resolution has to sort an incremental column of mixed
  types (TypeError), which needs a key that occurs twice. It drops no row for lacking
  a key. When the keys are pairwise distinct the batch is returned as it came.
  Otherwise the rows of the returned batch are rows of the batch, every key of the
  batch is still there, and the rows removed are those of duplicate resolution, for
  which the rows without key are duplicates of one another: exactly one row with a
  missing key is left. The verdict does not route the run: whenever the batch was
  fetched and the transformation returned, with or without missing keys, the
  orchestrator calls \<open>load_data_to_staging\<close>.
\<close>

theorem quality_gate_routing:
  "(\<not> is_empty df \<and> ''incident_number'' \<in> set (columns df)
      \<and> Null \<in> set (column df ''incident_number'') \<longrightarrow>
        Warn_dq_missing_pk (length (filter (\<lambda>k. k = Null) (column df ''incident_number'')))
          \<in> set (snd (perform_data_quality_checks df))
        \<and> ((\<exists>out. fst (perform_data_quality_checks df) = Inr out)
            \<or> (\<not> distinct (column df ''incident_number'') \<and> INCREMENTAL_COLUMN \<in> set (columns df)
                \<and> mixed_types (column df INCREMENTAL_COLUMN)
                \<and> fst (perform_data_quality_checks df) = Inl TypeError))
        \<and> (distinct (column df ''incident_number'') \<longrightarrow> fst (perform_data_quality_checks df) = Inr df)
        \<and> (\<forall>out. fst (perform_data_quality_checks df) = Inr out \<longrightarrow>
              columns out = columns df \<and> set (rows out) \<subseteq> set (rows df)
              \<and> key_of df ` set (rows out) = key_of df ` set (rows df)
              \<and> Null \<in> set (column out ''incident_number'')
              \<and> length (filter (\<lambda>k. k = Null) (column out ''incident_number'')) = 1))
   \<and> (db_online w
      \<and> fst (fetch_fire_data cfg py srv (fst (get_last_run_timestamp (wm_file w)))) = Some raw
      \<and> \<not> is_empty raw \<and> fst (latest_timestamp py raw) = Inr latest
      \<and> fst (transform_data py raw) = Inr tdf \<longrightarrow>
        Call_load_data_to_staging \<in> set (snd (snd (run_etl cfg py srv w))))"
proof (intro conjI impI)
  assume a: "\<not> is_empty df \<and> ''incident_number'' \<in> set (columns df)
      \<and> Null \<in> set (column df ''incident_number'')"
  from a show "Warn_dq_missing_pk (length (filter (\<lambda>k. k = Null) (column df ''incident_number'')))
          \<in> set (snd (perform_data_quality_checks df))"
    using dq_missing_keys(1)[of df] by blast
  from a show "(\<exists>out. fst (perform_data_quality_checks df) = Inr out)
            \<or> (\<not> distinct (column df ''incident_number'') \<and> INCREMENTAL_COLUMN \<in> set (columns df)
                \<and> mixed_types (column df INCREMENTAL_COLUMN)
                \<and> fst (perform_data_quality_checks df) = Inl TypeError)"
    using dq_returns(2)[of df] by blast
  from a show "distinct (column df ''incident_number'') \<Longrightarrow> fst (perform_data_quality_checks df) = Inr df"
    using dq_returns(1)[of df] by blast
  from a show "\<forall>out. fst (perform_data_quality_checks df) = Inr out \<longrightarrow>
              columns out = columns df \<and> set (rows out) \<subseteq> set (rows df)
              \<and> key_of df ` set (rows out) = key_of df ` set (rows df)
              \<and> Null \<in> set (column out ''incident_number'')
              \<and> length (filter (\<lambda>k. k = Null) (column out ''incident_number'')) = 1"
    using dq_missing_keys(2)[of df] by blast
next
  assume "db_online w
      \<and> fst (fetch_fire_data cfg py srv (fst (get_last_run_timestamp (wm_file w)))) = Some raw
      \<and> \<not> is_empty raw \<and> fst (latest_timestamp py raw) = Inr latest
      \<and> fst (transform_data py raw) = Inr tdf"
  then show "Call_load_data_to_staging \<in> set (snd (snd (run_etl cfg py srv w)))"
    using run_calls_loader[of w cfg py srv raw latest tdf] by blast
qed

lemma null_key_stages:
  "fst (fetch_fire_data (cfg_example 2000) py_iso (serves records_null_key)
         (fst (get_last_run_timestamp Missing))) = Some frame_null_key_raw
   \<and> fst (latest_timestamp py_iso frame_null_key_raw) = Inr (Some ''2024-01-01T00:00:01.000'')
   \<and> fst (transform_data py_iso frame_null_key_raw) = Inr frame_null_key_raw
   \<and> fst (perform_data_quality_checks frame_null_key_raw) = Inr frame_null_key_raw
   \<and> Warn_dq_missing_pk 1 \<in> set (snd (perform_data_quality_checks frame_null_key_raw))"
  by code_simp

lemma null_key_run:
  "(case run_etl (cfg_example 2000) py_iso (serves records_null_key) (world_example Missing Map.empty) of
      (code, w', evs) \<Rightarrow>
        code = 1 \<and> wm_file w' = Missing \<and> Warn_dq_missing_pk 1 \<in> set evs
        \<and> Call_load_data_to_staging \<in> set evs \<and> Error_load \<in> set evs)"
  by code_simp

lemma null_keys_resolved:
  "fst (perform_data_quality_checks frame_null_keys) =
     Inr \<lparr>columns = [''incident_number'', ''response_timestamp''],
          rows = [[Null, Str ''2024-01-01T00:00:02.000''],
                  [Str ''1'', Str ''2024-01-01T00:00:03.000'']]\<rparr>
   \<and> Warn_dq_missing_pk 2 \<in> set (snd (perform_data_quality_checks frame_null_keys))
   \<and> length (filter (\<lambda>k. k = Null) (column frame_null_keys ''incident_number'')) = 2"
  by code_simp

text \<open>
  A batch of two records, the second without key, is returned by the gate as it came,
  and the run that fetches it calls the loader. Of two rows without key and one with a
  key, the gate counts two rows and returns the later of them and the row with the key.
\<close>

theorem quality_gate_routing_witness:
  "\<not> is_empty frame_null_key_raw \<and> ''incident_number'' \<in> set (columns frame_null_key_raw)
   \<and> Null \<in> set (column frame_null_key_raw ''incident_number'')
   \<and> distinct (column frame_null_key_raw ''incident_number'')
   \<and> Warn_dq_missing_pk (length (filter (\<lambda>k. k = Null) (column frame_null_key_raw ''incident_number'')))
        \<in> set (snd (perform_data_quality_checks frame_null_key_raw))
   \<and> fst (perform_data_quality_checks frame_null_key_raw) = Inr frame_null_key_raw
   \<and> db_online (world_example Missing Map.empty)
   \<and> fst (transform_data py_iso frame_null_key_raw) = Inr frame_null_key_raw
   \<and> Call_load_data_to_staging
        \<in> set (snd (snd (run_etl (cfg_example 2000) py_iso (serves records_null_key)
                              (world_example Missing Map.empty))))
   \<and> \<not> is_empty frame_null_keys \<and> ''incident_number'' \<in> set (columns frame_null_keys)
   \<and> Null \<in> set (column frame_null_keys ''incident_number'')
   \<and> Warn_dq_missing_pk 2 \<in> set (snd (perform_data_quality_checks frame_null_keys))
   \<and> fst (perform_data_quality_checks frame_null_keys) =
        Inr \<lparr>columns = [''incident_number'', ''response_timestamp''],
             rows = [[Null, Str ''2024-01-01T00:00:02.000''],
                     [Str ''1'', Str ''2024-01-01T00:00:03.000'']]\<rparr>
   \<and> length (filter (\<lambda>k. k = Null)
        (column \<lparr>columns = [''incident_number'', ''response_timestamp''],
                 rows = [[Null, Str ''2024-01-01T00:00:02.000''],
                         [Str ''1'', Str ''2024-01-01T00:00:03.000'']]\<rparr> ''incident_number'')) = 1"
proof -
  have a: "\<not> is_empty frame_null_key_raw \<and> ''incident_number'' \<in> set (columns frame_null_key_raw)
      \<and> Null \<in> set (column frame_null_key_raw ''incident_number'')"
    by (simp add: is_empty_def frame_null_key_raw_def column_def cell_at_def)
  have d: "distinct (column frame_null_key_raw ''incident_number'')"
    by (simp add: frame_null_key_raw_def column_def cell_at_def)
  have b: "db_online (world_example Missing Map.empty)
      \<and> fst (fetch_fire_data (cfg_example 2000) py_iso (serves records_null_key)
             (fst (get_last_run_timestamp (wm_file (world_example Missing Map.empty)))))
          = Some frame_null_key_raw
      \<and> \<not> is_empty frame_null_key_raw
      \<and> fst (latest_timestamp py_iso frame_null_key_raw) = Inr (Some ''2024-01-01T00:00:01.000'')
      \<and> fst (transform_data py_iso frame_null_key_raw) = Inr frame_null_key_raw"
    using null_key_stages a by (simp add: world_example_def)
  have a': "\<not> is_empty frame_null_keys \<and> ''incident_number'' \<in> set (columns frame_null_keys)
      \<and> Null \<in> set (column frame_null_keys ''incident_number'')"
    by (simp add: is_empty_def frame_null_keys_def column_def cell_at_def)
  note one = quality_gate_routing[of frame_null_key_raw "world_example Missing Map.empty"
        "cfg_example 2000" py_iso "serves records_null_key" frame_null_key_raw
        "Some ''2024-01-01T00:00:01.000''" frame_null_key_raw]
  note two = quality_gate_routing[of frame_null_keys "world_example Missing Map.empty"
        "cfg_example 2000" py_iso "serves records_null_key" frame_null_key_raw
        "Some ''2024-01-01T00:00:01.000''" frame_null_key_raw, THEN conjunct1, THEN mp, OF a']
  from one a b d
  have p1: "Warn_dq_missing_pk (length (filter (\<lambda>k. k = Null) (column frame_null_key_raw ''incident_number'')))
        \<in> set (snd (perform_data_quality_checks frame_null_key_raw))"
    and p2: "fst (perform_data_quality_checks frame_null_key_raw) = Inr frame_null_key_raw"
    and p3: "Call_load_data_to_staging
        \<in> set (snd (snd (run_etl (cfg_example 2000) py_iso (serves records_null_key)
                              (world_example Missing Map.empty))))"
    by blast+
  from null_keys_resolved
  have r: "fst (perform_data_quality_checks frame_null_keys) =
        Inr \<lparr>columns = [''incident_number'', ''response_timestamp''],
             rows = [[Null, Str ''2024-01-01T00:00:02.000''],
                     [Str ''1'', Str ''2024-01-01T00:00:03.000'']]\<rparr>"
    and q1: "Warn_dq_missing_pk 2 \<in> set (snd (perform_data_quality_checks frame_null_keys))"
    by blast+
  from two r
  have q2: "length (filter (\<lambda>k. k = Null)
        (column \<lparr>columns = [''incident_number'', ''response_timestamp''],
                 rows = [[Null, Str ''2024-01-01T00:00:02.000''],
                         [Str ''1'', Str ''2024-01-01T00:00:03.000'']]\<rparr> ''incident_number'')) = 1"
    by blast
  from a d p1 p2 b p3 a' q1 r q2 show ?thesis by (intro conjI) (elim conjE, assumption)+
qed

text \<open>
  A batch of two records, the second without \<open>incident_number\<close>: the gate logs the
  failed check for one row, and the run goes on to call the loader (where the database
  refuses the NULL key, so that the run ends with status 1).
\<close>

theorem quality_gate_routing_counterexample:
  "Null \<in> set (column frame_null_key_raw ''incident_number'')
   \<and> fst (fetch_fire_data (cfg_example 2000) py_iso (serves records_null_key)
          (fst (get_last_run_timestamp Missing))) = Some frame_null_key_raw
   \<and> Warn_dq_missing_pk 1
        \<in> set (snd (snd (run_etl (cfg_example 2000) py_iso (serves records_null_key)
                              (world_example Missing Map.empty))))
   \<and> Call_load_data_to_staging
        \<in> set (snd (snd (run_etl (cfg_example 2000) py_iso (serves records_null_key)
                              (world_example Missing Map.empty))))"
proof -
  have "Null \<in> set (column frame_null_key_raw ''incident_number'')"
    by (simp add: frame_null_key_raw_def column_def cell_at_def)
  with null_key_run null_key_stages show ?thesis
    by (auto split: prod.splits)
qed

lemma list_all_notin: "list_all P evs \<Longrightarrow> \<not> P e \<Longrightarrow> e \<notin> set evs"
  by (auto simp: list_all_iff)

lemma list_all_filter_empty: "list_all P evs \<Longrightarrow> (\<And>e. P e \<Longrightarrow> \<not> Q e) \<Longrightarrow> filter Q evs = []"
  by (auto simp: list_all_iff filter_empty_conv)

lemma component_writes:
  "get_last_run_timestamp f = (wm, ev0) \<Longrightarrow> filter is_write ev0 = [] \<and> Error_load \<notin> set ev0"
  "fetch_fire_data cfg py srv wm = (fr, ev1) \<Longrightarrow> filter is_write ev1 = [] \<and> Error_load \<notin> set ev1"
  "latest_timestamp py raw = (lr, ev2) \<Longrightarrow> filter is_write ev2 = [] \<and> Error_load \<notin> set ev2"
  "transform_data py raw = (tr, ev3) \<Longrightarrow> filter is_write ev3 = [] \<and> Error_load \<notin> set ev3"
  "load_data_to_staging cfg db tdf = (ld, db1, ev4) \<Longrightarrow> filter is_write ev4 = []"
  "save_last_run_timestamp w0 ts = (w1, ev5) \<Longrightarrow> Error_load \<notin> set ev5"
proof -
  show "get_last_run_timestamp f = (wm, ev0) \<Longrightarrow> filter is_write ev0 = [] \<and> Error_load \<notin> set ev0"
    using get_last_run_timestamp_events[of f] by auto
  show "fetch_fire_data cfg py srv wm = (fr, ev1) \<Longrightarrow> filter is_write ev1 = [] \<and> Error_load \<notin> set ev1"
  proof -
    assume "fetch_fire_data cfg py srv wm = (fr, ev1)"
    with fetch_fire_data_events[of cfg py srv wm] have l: "list_all extractor_event ev1" by simp
    from list_all_filter_empty[OF l not_write(1)] list_all_notin[OF l, of Error_load]
    show ?thesis by simp
  qed
  show "latest_timestamp py raw = (lr, ev2) \<Longrightarrow> filter is_write ev2 = [] \<and> Error_load \<notin> set ev2"
    using latest_timestamp_events[of py raw] by auto
  show "transform_data py raw = (tr, ev3) \<Longrightarrow> filter is_write ev3 = [] \<and> Error_load \<notin> set ev3"
  proof -
    assume "transform_data py raw = (tr, ev3)"
    with transform_data_inv[of py raw] have l: "list_all transform_event ev3" by simp
    from list_all_filter_empty[OF l not_write(2)] list_all_notin[OF l, of Error_load]
    show ?thesis by simp
  qed
  show "load_data_to_staging cfg db tdf = (ld, db1, ev4) \<Longrightarrow> filter is_write ev4 = []"
  proof -
    assume "load_data_to_staging cfg db tdf = (ld, db1, ev4)"
    with load_events[of cfg db tdf] have l: "list_all loader_event ev4" by simp
    from list_all_filter_empty[OF l not_write(3)] show ?thesis by simp
  qed
  show "save_last_run_timestamp w0 ts = (w1, ev5) \<Longrightarrow> Error_load \<notin> set ev5"
    by (auto simp: save_last_run_timestamp_def split: if_splits)
qed

lemma load_success_no_error:
  "load_data_to_staging cfg db df = (Inr u, db1, evs) \<Longrightarrow> Error_load \<notin> set evs"
proof -
  assume a: "load_data_to_staging cfg db df = (Inr u, db1, evs)"
  obtain r1 d1 evs1 where c: "create_staging_table db df (STAGING_TABLE_NAME cfg) = (r1, d1, evs1)"
    by (cases "create_staging_table db df (STAGING_TABLE_NAME cfg)") blast
  obtain r2 d2 evs2 where
    up: "upsert_data d1 df (STAGING_TABLE_NAME cfg) ''incident_number'' = (r2, d2, evs2)"
    by (cases "upsert_data d1 df (STAGING_TABLE_NAME cfg) ''incident_number''") blast
  have e1: "Error_load \<notin> set evs1"
    using c by (auto simp: create_staging_table_def split: sum.splits prod.splits if_splits)
  have e2: "r2 = Inr () \<Longrightarrow> Error_load \<notin> set evs2"
  proof (cases "is_empty df")
    case True
    with up show ?thesis by (simp add: upsert_data_def)
  next
    case False
    assume "r2 = Inr ()"
    with False up show ?thesis
      by (auto simp: upsert_data_def Let_def split: sum.splits prod.splits option.splits if_splits)
  qed
  from a c up e1 e2 show ?thesis
    by (auto simp: load_data_to_staging_def split: if_splits sum.splits)
qed

lemma run_load_error:
  assumes "Error_load \<in> set (snd (snd (run_etl cfg py srv w)))"
  shows "fst (run_etl cfg py srv w) = 1
         \<and> wm_file (fst (snd (run_etl cfg py srv w))) = wm_file w
         \<and> filter is_write (snd (snd (run_etl cfg py srv w))) = []"
proof (cases rule: run_etl_cases[of w cfg py srv])
  case offline
  with assms show ?thesis by simp
next
  case (extract_failed wm ev0 ev1)
  with assms component_writes(1)[OF extract_failed(2)] component_writes(2)[OF extract_failed(3)]
  show ?thesis by simp
next
  case (no_data wm ev0 ev1 raw)
  with assms component_writes(1)[OF no_data(2)] component_writes(2)[OF no_data(3)]
  show ?thesis by simp
next
  case (latest_failed wm ev0 ev1 raw e ev2)
  with assms component_writes(1)[OF latest_failed(2)] component_writes(2)[OF latest_failed(3)]
    component_writes(3)[OF latest_failed(5)]
  show ?thesis by simp
next
  case (transform_failed wm ev0 ev1 raw latest ev2 e ev3)
  with assms component_writes(1)[OF transform_failed(2)] component_writes(2)[OF transform_failed(3)]
    component_writes(3)[OF transform_failed(5)] component_writes(4)[OF transform_failed(6)]
  show ?thesis by simp
next
  case (load_failed wm ev0 ev1 raw latest ev2 tdf ev3 e db1 ev4)
  with component_writes(1)[OF load_failed(2)] component_writes(2)[OF load_failed(3)]
    component_writes(3)[OF load_failed(5)] component_writes(4)[OF load_failed(6)]
    component_writes(5)[OF load_failed(8)]
  show ?thesis by simp
next
  case (saved wm ev0 ev1 raw ts ev2 tdf ev3 db1 ev4 w1 ev5)
  with assms component_writes(1)[OF saved(2)] component_writes(2)[OF saved(3)]
    component_writes(3)[OF saved(5)] component_writes(4)[OF saved(6)]
    load_success_no_error[OF saved(8)] component_writes(6)[OF saved(11)]
  show ?thesis by simp
next
  case (not_saved wm ev0 ev1 raw latest ev2 tdf ev3 db1 ev4 tl)
  with assms component_writes(1)[OF not_saved(2)] component_writes(2)[OF not_saved(3)]
    component_writes(3)[OF not_saved(5)] component_writes(4)[OF not_saved(6)]
    load_success_no_error[OF not_saved(8)]
  show ?thesis by auto
qed

text \<open>
  Claim C4. When \<open>upsert_data\<close> raises, the database it leaves is the database it was
  given: what the pages of the statement did stayed in the transaction, which is
  rolled back and never committed. \<open>load_data_to_staging\<close> raises the same exception
  again after logging it, and a run in which the loader failed exits with status 1
  without writing the watermark.
\<close>

theorem upsert_atomic:
  "(fst (upsert_data db df tn uk) = Inl e \<longrightarrow>
      fst (snd (upsert_data db df tn uk)) = db
      \<and> Db_rollback \<in> set (snd (snd (upsert_data db df tn uk)))
      \<and> Db_commit \<notin> set (snd (snd (upsert_data db df tn uk))))
   \<and> (\<not> is_empty df \<and> ''incident_number'' \<in> set (columns df)
      \<and> create_staging_table db df (STAGING_TABLE_NAME cfg) = (Inr u, db1, evs1)
      \<and> upsert_data db1 df (STAGING_TABLE_NAME cfg) ''incident_number'' = (Inl e, db2, evs2) \<longrightarrow>
        load_data_to_staging cfg db df = (Inl e, db1, evs1 @ evs2 @ [Error_load]) \<and> db2 = db1)
   \<and> (Error_load \<in> set (snd (snd (run_etl cfg py srv w))) \<longrightarrow>
        fst (run_etl cfg py srv w) = 1
        \<and> wm_file (fst (snd (run_etl cfg py srv w))) = wm_file w
        \<and> filter is_write (snd (snd (run_etl cfg py srv w))) = [])"
proof (intro conjI impI)
  assume "fst (upsert_data db df tn uk) = Inl e"
  from upsert_data_error[OF this]
  show "fst (snd (upsert_data db df tn uk)) = db"
    and "Db_rollback \<in> set (snd (snd (upsert_data db df tn uk)))"
    and "Db_commit \<notin> set (snd (snd (upsert_data db df tn uk)))"
    by simp_all
next
  assume a: "\<not> is_empty df \<and> ''incident_number'' \<in> set (columns df)
      \<and> create_staging_table db df (STAGING_TABLE_NAME cfg) = (Inr u, db1, evs1)
      \<and> upsert_data db1 df (STAGING_TABLE_NAME cfg) ''incident_number'' = (Inl e, db2, evs2)"
  then show "load_data_to_staging cfg db df = (Inl e, db1, evs1 @ evs2 @ [Error_load])"
    using load_propagates[of df db cfg u db1 evs1 e db2 evs2] by blast
  from a upsert_data_error[of db1 df "STAGING_TABLE_NAME cfg" "''incident_number''" e]
  show "db2 = db1" by simp
next
  assume "Error_load \<in> set (snd (snd (run_etl cfg py srv w)))"
  from run_load_error[OF this]
  show "fst (run_etl cfg py srv w) = 1"
    and "wm_file (fst (snd (run_etl cfg py srv w))) = wm_file w"
    and "filter is_write (snd (snd (run_etl cfg py srv w))) = []"
    by simp_all
qed

lemma null_key_upsert:
  "upsert_data db_example frame_null_key stg ''incident_number''
     = (Inl DatabaseError, db_example, [Db_rollback, Error_upsert])"
  by (simp add: upsert_data_def Let_def get_columns_def execute_values_def chunks_nonempty
        raw_connection_def replace_na_def db_example_def table_example_def frame_null_key_def
        is_empty_def select_columns_def execute_upsert_def rollback_def incoming_row_def
        merge_row_def cell_at_def)

theorem upsert_atomic_witness:
  "fst (upsert_data db_example frame_null_key stg ''incident_number'') = Inl DatabaseError
   \<and> fst (snd (upsert_data db_example frame_null_key stg ''incident_number'')) = db_example
   \<and> load_data_to_staging (cfg_example 2000) db_example frame_null_key
        = (Inl DatabaseError, db_example, [Db_rollback, Error_upsert, Error_load])
   \<and> Error_load \<in> set (snd (snd (run_etl (cfg_example 2000) py_iso (serves records_null_key)
                                     (world_example Missing Map.empty))))
   \<and> fst (run_etl (cfg_example 2000) py_iso (serves records_null_key)
            (world_example Missing Map.empty)) = 1
   \<and> wm_file (fst (snd (run_etl (cfg_example 2000) py_iso (serves records_null_key)
                          (world_example Missing Map.empty)))) = Missing"
proof -
  have n: "STAGING_TABLE_NAME (cfg_example 2000) = stg" by (simp add: cfg_example_def stg_def)
  have a: "fst (upsert_data db_example frame_null_key stg ''incident_number'') = Inl DatabaseError"
    by (simp add: null_key_upsert)
  have b: "\<not> is_empty frame_null_key \<and> ''incident_number'' \<in> set (columns frame_null_key)
      \<and> create_staging_table db_example frame_null_key (STAGING_TABLE_NAME (cfg_example 2000))
          = (Inr (), db_example, [])
      \<and> upsert_data db_example frame_null_key (STAGING_TABLE_NAME (cfg_example 2000)) ''incident_number''
          = (Inl DatabaseError, db_example, [Db_rollback, Error_upsert])"
    by (simp add: n null_key_upsert)
       (simp add: is_empty_def frame_null_key_def create_staging_table_def execute_create_def
          db_example_def)
  have c: "Error_load \<in> set (snd (snd (run_etl (cfg_example 2000) py_iso (serves records_null_key)
                                     (world_example Missing Map.empty))))"
    using null_key_run by (auto split: prod.splits)
  have w: "wm_file (world_example Missing Map.empty) = Missing" by (simp add: world_example_def)
  from upsert_atomic[of db_example frame_null_key stg "''incident_number''" DatabaseError
         "cfg_example 2000" "()" db_example "[]" db_example "[Db_rollback, Error_upsert]"
         py_iso "serves records_null_key" "world_example Missing Map.empty"] a b c w
  show ?thesis by simp
qed

lemma no_write_notin: "filter is_write evs = [] \<Longrightarrow> Wrote_watermark t \<notin> set evs"
  by (auto simp: filter_empty_conv)

lemma save_cases:
  "save_last_run_timestamp w0 ts = (w1, ev5) \<Longrightarrow>
     (ev5 = [Wrote_watermark ts] \<and> w1 = w0\<lparr>wm_file := Contents ts\<rparr>)
     \<or> (ev5 = [Error_writing_watermark] \<and> w1 = w0)"
  by (auto simp: save_last_run_timestamp_def split: if_splits)

text \<open>
  Claim C2, as amended. In every run the state file is written at most once. When it
  is written, the write is the last thing the run does and follows the commit of the
  upsert directly; the run ends with status 0; and the value written is the latest
  timestamp of the fetched batch, is not empty and differs from the watermark read at
  the start. The test is for inequality only: nothing in the run compares the two
  values for order. A run that does not write leaves the state file as it was.
\<close>

theorem watermark_advance:
  "length (filter is_write (snd (snd (run_etl cfg py srv w)))) \<le> 1
   \<and> (\<forall>ts. Wrote_watermark ts \<in> set (snd (snd (run_etl cfg py srv w))) \<longrightarrow>
        (\<exists>pre. snd (snd (run_etl cfg py srv w)) = pre @ [Db_commit, Wrote_watermark ts])
        \<and> fst (run_etl cfg py srv w) = 0
        \<and> ts \<noteq> [] \<and> fst (get_last_run_timestamp (wm_file w)) \<noteq> Some ts
        \<and> wm_file (fst (snd (run_etl cfg py srv w))) = Contents ts
        \<and> (\<exists>raw. fst (fetch_fire_data cfg py srv (fst (get_last_run_timestamp (wm_file w)))) = Some raw
                 \<and> fst (latest_timestamp py raw) = Inr (Some ts)))
   \<and> ((\<forall>ts. Wrote_watermark ts \<notin> set (snd (snd (run_etl cfg py srv w)))) \<longrightarrow>
        wm_file (fst (snd (run_etl cfg py srv w))) = wm_file w)"
proof (cases rule: run_etl_cases[of w cfg py srv])
  case offline
  then show ?thesis by simp
next
  case (extract_failed wm ev0 ev1)
  with component_writes(1)[OF extract_failed(2)] component_writes(2)[OF extract_failed(3)]
  show ?thesis by (simp add: no_write_notin)
next
  case (no_data wm ev0 ev1 raw)
  with component_writes(1)[OF no_data(2)] component_writes(2)[OF no_data(3)]
  show ?thesis by (simp add: no_write_notin)
next
  case (latest_failed wm ev0 ev1 raw e ev2)
  with component_writes(1)[OF latest_failed(2)] component_writes(2)[OF latest_failed(3)]
    component_writes(3)[OF latest_failed(5)]
  show ?thesis by (simp add: no_write_notin)
next
  case (transform_failed wm ev0 ev1 raw latest ev2 e ev3)
  with component_writes(1)[OF transform_failed(2)] component_writes(2)[OF transform_failed(3)]
    component_writes(3)[OF transform_failed(5)] component_writes(4)[OF transform_failed(6)]
  show ?thesis by (simp add: no_write_notin)
next
  case (load_failed wm ev0 ev1 raw latest ev2 tdf ev3 e db1 ev4)
  with component_writes(1)[OF load_failed(2)] component_writes(2)[OF load_failed(3)]
    component_writes(3)[OF load_failed(5)] component_writes(4)[OF load_failed(6)]
    component_writes(5)[OF load_failed(8)]
  show ?thesis by (simp add: no_write_notin)
next
  case (not_saved wm ev0 ev1 raw latest ev2 tdf ev3 db1 ev4 tl)
  from not_saved(10) have tl: "filter is_write tl = []" by auto
  with not_saved component_writes(1)[OF not_saved(2)] component_writes(2)[OF not_saved(3)]
    component_writes(3)[OF not_saved(5)] component_writes(4)[OF not_saved(6)]
    component_writes(5)[OF not_saved(8)]
  show ?thesis by (simp add: no_write_notin)
next
  case (saved wm ev0 ev1 raw ts ev2 tdf ev3 db1 ev4 w1 ev5)
  note nw = component_writes(1)[OF saved(2)] component_writes(2)[OF saved(3)]
    component_writes(3)[OF saved(5)] component_writes(4)[OF saved(6)]
    component_writes(5)[OF saved(8)]
  from load_success[OF saved(8) saved(7)] obtain pre where pre: "ev4 = pre @ [Db_commit]" by blast
  from save_cases[OF saved(11)] show ?thesis
  proof
    assume s: "ev5 = [Wrote_watermark ts] \<and> w1 = w\<lparr>warehouse := db1\<rparr>\<lparr>wm_file := Contents ts\<rparr>"
    have evs: "snd (snd (run_etl cfg py srv w))
        = (ev0 @ ev1 @ ev2 @ ev3 @ [Call_load_data_to_staging] @ pre) @ [Db_commit, Wrote_watermark ts]"
      using saved(12) s pre by simp
    have one: "filter is_write (snd (snd (run_etl cfg py srv w))) = [Wrote_watermark ts]"
      using saved(12) s nw by simp
    have only: "Wrote_watermark t \<in> set (snd (snd (run_etl cfg py srv w))) \<Longrightarrow> t = ts" for t
    proof -
      assume "Wrote_watermark t \<in> set (snd (snd (run_etl cfg py srv w)))"
      then have "Wrote_watermark t \<in> set (filter is_write (snd (snd (run_etl cfg py srv w))))"
        by simp
      with one show "t = ts" by simp
    qed
    have mem: "Wrote_watermark ts \<in> set (snd (snd (run_etl cfg py srv w)))"
      using evs by simp
    have rest: "fst (run_etl cfg py srv w) = 0 \<and> ts \<noteq> []
        \<and> fst (get_last_run_timestamp (wm_file w)) \<noteq> Some ts
        \<and> wm_file (fst (snd (run_etl cfg py srv w))) = Contents ts
        \<and> (\<exists>raw. fst (fetch_fire_data cfg py srv (fst (get_last_run_timestamp (wm_file w)))) = Some raw
                 \<and> fst (latest_timestamp py raw) = Inr (Some ts))"
      using saved s by simp
    show ?thesis
    proof (intro conjI allI impI)
      show "length (filter is_write (snd (snd (run_etl cfg py srv w)))) \<le> 1" using one by simp
    next
      fix t
      assume a: "Wrote_watermark t \<in> set (snd (snd (run_etl cfg py srv w)))"
      from only[OF a] have t: "t = ts" .
      show "\<exists>pre. snd (snd (run_etl cfg py srv w)) = pre @ [Db_commit, Wrote_watermark t]"
        using evs t by blast
      show "fst (run_etl cfg py srv w) = 0" using rest by simp
      show "t \<noteq> []" using rest t by simp
      show "fst (get_last_run_timestamp (wm_file w)) \<noteq> Some t" using rest t by simp
      show "wm_file (fst (snd (run_etl cfg py srv w))) = Contents t" using rest t by simp
      show "\<exists>raw. fst (fetch_fire_data cfg py srv (fst (get_last_run_timestamp (wm_file w)))) = Some raw
                 \<and> fst (latest_timestamp py raw) = Inr (Some t)" using rest t by simp
    next
      assume "\<forall>ts. Wrote_watermark ts \<notin> set (snd (snd (run_etl cfg py srv w)))"
      with mem show "wm_file (fst (snd (run_etl cfg py srv w))) = wm_file w" by blast
    qed
  next
    assume s: "ev5 = [Error_writing_watermark] \<and> w1 = w\<lparr>warehouse := db1\<rparr>"
    with saved nw show ?thesis by (simp add: no_write_notin)
  qed
qed

lemma run_forward:
  "(case run_etl (cfg_example 2000) py_iso (serves (incidents 2))
           (world_example (Contents ''2023-12-31T00:00:00.000'') Map.empty) of
      (code, w', evs) \<Rightarrow>
        code = 0 \<and> wm_file w' = Contents ''2024-01-01T00:00:00.000''
        \<and> Wrote_watermark ''2024-01-01T00:00:00.000'' \<in> set evs)"
  by code_simp

theorem watermark_advance_witness:
  "Wrote_watermark ''2024-01-01T00:00:00.000''
     \<in> set (snd (snd (run_etl (cfg_example 2000) py_iso (serves (incidents 2))
                          (world_example (Contents ''2023-12-31T00:00:00.000'') Map.empty))))
   \<and> fst (run_etl (cfg_example 2000) py_iso (serves (incidents 2))
            (world_example (Contents ''2023-12-31T00:00:00.000'') Map.empty)) = 0
   \<and> wm_file (fst (snd (run_etl (cfg_example 2000) py_iso (serves (incidents 2))
                          (world_example (Contents ''2023-12-31T00:00:00.000'') Map.empty))))
        = Contents ''2024-01-01T00:00:00.000''
   \<and> fst (get_last_run_timestamp
            (wm_file (world_example (Contents ''2023-12-31T00:00:00.000'') Map.empty)))
        \<noteq> Some ''2024-01-01T00:00:00.000''
   \<and> length (filter is_write
        (snd (snd (run_etl (cfg_example 2000) py_iso (serves (incidents 2))
                     (world_example (Contents ''2023-12-31T00:00:00.000'') Map.empty))))) \<le> 1"
proof -
  have m: "Wrote_watermark ''2024-01-01T00:00:00.000''
     \<in> set (snd (snd (run_etl (cfg_example 2000) py_iso (serves (incidents 2))
                          (world_example (Contents ''2023-12-31T00:00:00.000'') Map.empty))))"
    using run_forward by (auto split: prod.splits)
  from watermark_advance[of "cfg_example 2000" py_iso "serves (incidents 2)"
         "world_example (Contents ''2023-12-31T00:00:00.000'') Map.empty"] m
  show ?thesis by blast
qed

text \<open>
  The state file holds 2 January; the source answers with two records of 1 January.
  The load succeeds and the run writes 1 January, which is not greater than the
  watermark it read but smaller: the watermark moves backwards.
\<close>

lemma run_backward:
  "(case run_etl (cfg_example 2000) py_iso (serves (incidents 2))
           (world_example (Contents ''2024-01-02T00:00:00.000'') Map.empty) of
      (code, w', evs) \<Rightarrow>
        code = 0 \<and> wm_file w' = Contents ''2024-01-01T00:00:00.000''
        \<and> Wrote_watermark ''2024-01-01T00:00:00.000'' \<in> set evs \<and> Db_commit \<in> set evs)"
  by code_simp

theorem watermark_advance_counterexample:
  "fst (get_last_run_timestamp (wm_file (world_example (Contents ''2024-01-02T00:00:00.000'') Map.empty)))
     = Some ''2024-01-02T00:00:00.000''
   \<and> Wrote_watermark ''2024-01-01T00:00:00.000''
       \<in> set (snd (snd (run_etl (cfg_example 2000) py_iso (serves (incidents 2))
                            (world_example (Contents ''2024-01-02T00:00:00.000'') Map.empty))))
   \<and> wm_file (fst (snd (run_etl (cfg_example 2000) py_iso (serves (incidents 2))
                          (world_example (Contents ''2024-01-02T00:00:00.000'') Map.empty))))
        = Contents ''2024-01-01T00:00:00.000''
   \<and> \<not> (''2024-01-02T00:00:00.000'' < ''2024-01-01T00:00:00.000'')
   \<and> ''2024-01-01T00:00:00.000'' < ''2024-01-02T00:00:00.000''"
proof -
  have g: "fst (get_last_run_timestamp (wm_file (world_example (Contents ''2024-01-02T00:00:00.000'') Map.empty)))
     = Some ''2024-01-02T00:00:00.000''"
    by code_simp
  have o: "\<not> (''2024-01-02T00:00:00.000'' < ''2024-01-01T00:00:00.000'')
           \<and> ''2024-01-01T00:00:00.000'' < ''2024-01-02T00:00:00.000''"
    by code_simp
  from run_backward g o show ?thesis by (auto split: prod.splits)
qed

end
